theory Spec2Isabelle
  imports Main "HOL-Library.Sublist" "HOL-Library.Multiset"
begin

section \<open>Python primitives used by the three tools\<close>

text \<open>
  Strings are \<^typ>\<open>string\<close>: a character stands for the code point of the same number,
  0 to 255, so the text the model covers is Latin-1. The built-in string methods the tools
  call are written out for these characters: \<open>str.lower\<close> (the capital letters A to Z,
  and U+00C0 to U+00DE without the sign U+00D7, go 32 up), \<open>str.strip\<close> (the white space
  of \<open>str.isspace\<close>: U+0009 to U+000D, U+001C to U+0020, U+0085 and U+00A0), the substring
  test \<open>a in b\<close>, \<open>str.startswith\<close> (the library's \<^const>\<open>prefix\<close>), \<open>str(int)\<close> and
  \<open>str.format\<close> with one positional field.
\<close>

definition lower_char :: "char \<Rightarrow> char" where
  "lower_char c =
     (let n = (of_char c :: nat) in
      if (65 \<le> n \<and> n \<le> 90) \<or> (192 \<le> n \<and> n \<le> 222 \<and> n \<noteq> 215) then char_of (n + 32) else c)"

definition lower :: "string \<Rightarrow> string" where
  "lower s = map lower_char s"

definition isspace :: "char \<Rightarrow> bool" where
  "isspace c = ((of_char c :: nat) \<in> set [9, 10, 11, 12, 13, 28, 29, 30, 31, 32, 133, 160])"

definition strip :: "string \<Rightarrow> string" where
  "strip s = rev (dropWhile isspace (rev (dropWhile isspace s)))"

text \<open>\<open>needle in haystack\<close> on strings: some suffix of the haystack starts with the needle.\<close>

fun py_in :: "string \<Rightarrow> string \<Rightarrow> bool" where
  "py_in needle [] = (needle = [])"
| "py_in needle (c # cs) = (prefix needle (c # cs) \<or> py_in needle cs)"

definition digit_char :: "nat \<Rightarrow> char" where
  "digit_char d = char_of (48 + d)"

function str_nat :: "nat \<Rightarrow> string" where
  "str_nat n = (if n < 10 then [digit_char n] else str_nat (n div 10) @ [digit_char (n mod 10)])"
  by pat_completeness auto
termination
  by (relation "measure id") auto

definition str_int :: "int \<Rightarrow> string" where
  "str_int i = (if i < 0 then CHR ''-'' # str_nat (nat (- i)) else str_nat (nat i))"

text \<open>
  \<open>template.format(arg)\<close> for the templates of the platform table: every \<open>{}\<close> field is
  replaced by the argument. (Each template of the table has exactly one such field and no
  other brace, so Python's formatting errors cannot arise there.)
\<close>

fun str_format :: "string \<Rightarrow> string \<Rightarrow> string" where
  "str_format (c # d # cs) arg =
     (if c = CHR ''{'' \<and> d = CHR ''}'' then arg @ str_format cs arg
      else c # str_format (d # cs) arg)"
| "str_format cs arg = cs"

section \<open>The network, as the tools see it\<close>

text \<open>
  An HTTP GET through \<open>requests\<close> returns a response or raises. The faults of the error
  taxonomy that \<open>requests\<close> raises as a \<open>RequestException\<close>: a DNS failure and a refused
  connection are \<open>requests.ConnectionError\<close>, a timeout is \<open>requests.Timeout\<close>, a TLS or
  protocol fault is \<open>SSLError\<close>/\<open>ChunkedEncodingError\<close>, a malformed target is
  \<open>InvalidURL\<close>/\<open>MissingSchema\<close>. The string is \<open>str(e)\<close>.

  Not every exception of a GET is a \<open>RequestException\<close>: for a host name with a label of
  more than 63 characters urllib3 raises \<open>LocationParseError\<close>, which \<open>requests\<close> passes
  on as it is. A function that catches with a bare \<open>except\<close> treats all exceptions alike,
  and there the constructor \<open>RequestException\<close> stands for any exception: its GET is a
  function to \<open>http_result\<close>. A function that catches \<open>RequestException\<close> only has a
  third outcome: its GET is a function to \<open>py_exception + http_result\<close>, with \<open>Inl\<close> for
  an exception that is no \<open>RequestException\<close>.
\<close>

datatype fault =
  DNS_resolution_failure | Connection_refused | Connection_timeout | Transport_error
  | Malformed_target

record response =
  status_code :: int
  page_text :: string
  content :: string
  headers :: "(string \<times> string) list"

datatype http_result = Response response | RequestException fault string

text \<open>
  A TCP connect through \<open>socket.connect_ex\<close> returns an errno (0 when the connection is
  established, \<open>ECONNREFUSED\<close> = 111 on refusal, \<open>EAGAIN\<close> = 11 when the socket's timeout
  expires), or the socket calls raise (name resolution, no descriptor left).
\<close>

datatype connect_result = Errno int | SocketError

datatype py_exception = KeyError string | EOFError | KeyboardInterrupt | LocationParseError string

section \<open>findingnemo.py\<close>

definition RED :: string where "RED = CHR 0x1B # ''[91m''"
definition GREEN :: string where "GREEN = CHR 0x1B # ''[92m''"
definition CYAN :: string where "CYAN = CHR 0x1B # ''[96m''"
definition WHITE :: string where "WHITE = CHR 0x1B # ''[97m''"
definition RESET :: string where "RESET = CHR 0x1B # ''[0m''"
definition BOLD :: string where "BOLD = CHR 0x1B # ''[1m''"

text \<open>
  One entry of the platform table. The key \<open>"error"\<close> is read with
  \<open>platform_data.get("error", [])\<close>, so it may be missing.
\<close>

record platform_data =
  url :: string
  error :: "string list option"

type_synonym platforms = "(string \<times> platform_data) list"

definition load_platforms :: platforms where
  "load_platforms =
   [(''Facebook'', \<lparr>url = ''https://www.facebook.com/{}'',
       error = Some [''content-login-button'', ''login_form'']\<rparr>),
    (''Instagram'', \<lparr>url = ''https://www.instagram.com/{}/'',
       error = Some [''The link you followed may be broken'']\<rparr>),
    (''Twitter'', \<lparr>url = ''https://twitter.com/{}'',
       error = Some [''This account doesn't exist'']\<rparr>),
    (''GitHub'', \<lparr>url = ''https://github.com/{}'',
       error = Some [''This is not the web page you are looking for'']\<rparr>),
    (''YouTube'', \<lparr>url = ''https://www.youtube.com/@'' @ ''{}'',
       error = Some [''This channel doesn't exist'']\<rparr>),
    (''Reddit'', \<lparr>url = ''https://www.reddit.com/user/{}'',
       error = Some [''Sorry, nobody on Reddit goes by that name'']\<rparr>),
    (''Pinterest'', \<lparr>url = ''https://www.pinterest.com/{}/'',
       error = Some [''Sorry, we couldn't find'']\<rparr>),
    (''TikTok'', \<lparr>url = ''https://www.tiktok.com/@'' @ ''{}'',
       error = Some [''Couldn't find this account'']\<rparr>),
    (''LinkedIn'', \<lparr>url = ''https://www.linkedin.com/in/{}'',
       error = Some [''This page doesn't exist'']\<rparr>),
    (''Twitch'', \<lparr>url = ''https://www.twitch.tv/{}'',
       error = Some [''the page you are looking for is unavailable'']\<rparr>),
    (''Telegram'', \<lparr>url = ''https://t.me/{}'',
       error = Some [''If you have Telegram, you can contact'']\<rparr>),
    (''VK'', \<lparr>url = ''https://vk.com/{}'', error = Some [''Error 404'']\<rparr>),
    (''Medium'', \<lparr>url = ''https://medium.com/@'' @ ''{}'', error = Some [''404'']\<rparr>),
    (''DevianArt'', \<lparr>url = ''https://{}.deviantart.com'', error = Some [''404'']\<rparr>),
    (''Spotify'', \<lparr>url = ''https://open.spotify.com/user/{}'',
       error = Some [''Page not found'']\<rparr>)]"

text \<open>
  The loop over the error indicators of \<open>check_platform\<close>: \<open>found\<close> starts as \<open>True\<close> and
  the first indicator that occurs in the lower-cased page text sets it to \<open>False\<close> and
  leaves the loop.
\<close>

fun scan_indicators :: "string list \<Rightarrow> string \<Rightarrow> bool" where
  "scan_indicators [] page = True"
| "scan_indicators (e # es) page =
     (if py_in (lower e) (lower page) then False else scan_indicators es page)"

type_synonym platform_result = "string \<times> string \<times> bool \<times> string"

text \<open>
  \<open>check_platform\<close>. The table lookup and the formatting of the URL stand before the
  \<open>try\<close>, so a platform that is not in the table raises \<open>KeyError\<close>; inside the \<open>try\<close>
  only \<open>RequestException\<close> is caught, and any other exception of the GET leaves the
  function.
\<close>

definition check_platform ::
  "platforms \<Rightarrow> (string \<Rightarrow> py_exception + http_result) \<Rightarrow> string \<Rightarrow> string
     \<Rightarrow> py_exception + platform_result"
where
  "check_platform table session_get platform username =
     (case map_of table platform of
        None \<Rightarrow> Inl (KeyError platform)
      | Some platform_data \<Rightarrow>
          (let target = str_format (url platform_data) username in
           case session_get target of
             Inl e \<Rightarrow> Inl e
           | Inr (Response r) \<Rightarrow>
               if status_code r = 200 then
                 (let error_indicators = (case error platform_data of None \<Rightarrow> [] | Some es \<Rightarrow> es);
                      found = scan_indicators error_indicators (page_text r)
                  in Inr (platform, target, found, ''Success''))
               else Inr (platform, target, False, ''Status: '' @ str_int (status_code r))
           | Inr (RequestException f msg) \<Rightarrow>
               Inr (platform, target, False, ''Error: '' @ msg)))"

text \<open>\<open>print_result\<close>: the lines it prints. The message is not printed.\<close>

definition print_result :: "string \<Rightarrow> string \<Rightarrow> bool \<Rightarrow> string \<Rightarrow> string list" where
  "print_result platform target found message =
     (if found then
        [GREEN @ ''[ FOUND ]'' @ RESET @ '' '' @ BOLD @ platform @ RESET,
         ''     '' @ CYAN @ ''URL: '' @ WHITE @ target @ RESET]
      else [RED @ ''[ NOT FOUND ]'' @ RESET @ '' '' @ BOLD @ platform @ RESET])"

text \<open>
  \<open>run_search\<close>. Every platform of the table is submitted to the pool; \<open>futures\<close> holds
  what each call of \<open>check_platform\<close> ends with, in submission order. \<open>as_completed\<close>
  hands the futures over in the order they finish, which the scheduler, the number of
  workers and the latencies decide: the order is the parameter \<open>order\<close>, a list of
  positions in \<open>futures\<close>. A position outside the list yields nothing.
  \<open>future.result()\<close> raises again what the worker raised, and the exception leaves
  \<open>run_search\<close>: the result is then \<open>Inl\<close> of the exception with what had been printed
  and counted up to there. The report holds the arguments of the successive calls of
  \<open>print_result\<close> and \<open>found_count\<close>; the elapsed time is left out.
\<close>

definition futures ::
  "platforms \<Rightarrow> (string \<Rightarrow> py_exception + http_result) \<Rightarrow> string
     \<Rightarrow> (py_exception + platform_result) list"
where
  "futures table session_get username =
     map (\<lambda>platform. check_platform table session_get platform username) (map fst table)"

definition as_completed :: "nat list \<Rightarrow> 'a list \<Rightarrow> 'a list" where
  "as_completed order fs = concat (map (\<lambda>i. if i < length fs then [fs ! i] else []) order)"

record search_report =
  printed :: "platform_result list"
  found_count :: nat

fun search_loop ::
  "(py_exception + platform_result) list \<Rightarrow> search_report
     \<Rightarrow> (py_exception \<times> search_report) + search_report"
where
  "search_loop [] rep = Inr rep"
| "search_loop (Inl e # fs) rep = Inl (e, rep)"
| "search_loop (Inr (platform, target, found, message) # fs) rep =
     search_loop fs
       \<lparr>printed = printed rep @ [(platform, target, found, message)],
        found_count = (if found then found_count rep + 1 else found_count rep)\<rparr>"

definition run_search ::
  "platforms \<Rightarrow> (string \<Rightarrow> py_exception + http_result) \<Rightarrow> nat list \<Rightarrow> string
     \<Rightarrow> (py_exception \<times> search_report) + search_report"
where
  "run_search table session_get order username =
     search_loop (as_completed order (futures table session_get username))
       \<lparr>printed = [], found_count = 0\<rparr>"

definition search_output :: "search_report \<Rightarrow> string list" where
  "search_output rep =
     concat (map (\<lambda>(platform, target, found, message).
        print_result platform target found message) (printed rep))"

text \<open>
  What \<open>input()\<close> delivers: a line, or Ctrl-C while the prompt waits. When the events
  are used up the input has reached its end, and \<open>input()\<close> raises \<open>EOFError\<close>.
\<close>

datatype input_event = Line string | Interrupt

text \<open>
  \<open>interactive_mode\<close>. The result is the list of usernames \<open>run_search\<close> is called
  with, in order, and how the loop ends. An empty line goes back to the prompt; \<open>exit\<close>,
  \<open>quit\<close> and \<open>q\<close> leave the loop, and so does Ctrl-C, which is taken at the prompt
  only. At the end of the input, \<open>EOFError\<close> is caught by \<open>except Exception\<close>, the loop
  goes on and \<open>input()\<close> raises again: the loop never ends.
\<close>

datatype session_end = Goodbye | Cancelled | Repeats_EOFError | Finished

fun interactive_mode :: "input_event list \<Rightarrow> string list \<times> session_end" where
  "interactive_mode [] = ([], Repeats_EOFError)"
| "interactive_mode (Interrupt # evs) = ([], Cancelled)"
| "interactive_mode (Line s # evs) =
     (let username = strip s in
      if username = [] then interactive_mode evs
      else if lower username \<in> set [''exit'', ''quit'', ''q''] then ([], Goodbye)
      else (let (searched, ending) = interactive_mode evs in (username # searched, ending)))"

text \<open>\<open>main\<close> of findingnemo.py: \<open>argv\<close> is \<open>sys.argv\<close>.\<close>

definition nemo_main :: "string list \<Rightarrow> input_event list \<Rightarrow> string list \<times> session_end" where
  "nemo_main argv evs =
     (if length argv > 1 then ([argv ! 1], Finished) else interactive_mode evs)"

section \<open>server_recon.py\<close>

definition Fore_GREEN :: string where "Fore_GREEN = CHR 0x1B # ''[32m''"
definition Fore_YELLOW :: string where "Fore_YELLOW = CHR 0x1B # ''[33m''"
definition Fore_BLUE :: string where "Fore_BLUE = CHR 0x1B # ''[34m''"
definition Style_RESET_ALL :: string where "Style_RESET_ALL = CHR 0x1B # ''[0m''"

definition print_success :: "string \<Rightarrow> string" where
  "print_success message = Fore_GREEN @ ''[+] '' @ message"

definition print_warning :: "string \<Rightarrow> string" where
  "print_warning message = Fore_YELLOW @ ''[!] '' @ message"

definition print_info :: "string \<Rightarrow> string" where
  "print_info message = Fore_BLUE @ ''[*] '' @ message"

definition HIDDEN_PATHS :: "string list" where
  "HIDDEN_PATHS =
   [''admin'', ''dashboard'', ''login'', ''wp-admin'', ''phpmyadmin'',
    ''.git'', ''.env'', ''backup'', ''api'', ''config'', ''uploads'',
    ''administrator'', ''mysql'', ''test'', ''hidden'', ''cgi-bin'',
    ''phpinfo.php'', ''robots.txt'', ''.htaccess'', ''backup.zip'',
    ''wp-login.php'', ''administrator/index.php'', ''server-status'']"

definition COMMON_PORTS :: "int list" where
  "COMMON_PORTS = [21, 22, 23, 25, 53, 80, 110, 443, 993, 995, 1723, 3306, 3389, 5900, 8080, 8443]"

text \<open>\<open>validate_url\<close>: the URL it returns, and the warning it prints on the way.\<close>

definition validate_url :: "string \<Rightarrow> string" where
  "validate_url u =
     (if \<not> (prefix ''http://'' u \<or> prefix ''https://'' u) then ''http://'' @ u else u)"

definition validate_url_output :: "string \<Rightarrow> string list" where
  "validate_url_output u =
     (if \<not> (prefix ''http://'' u \<or> prefix ''https://'' u)
      then [print_warning (''Added http:// prefix. Using: '' @ ''http://'' @ u)] else [])"

text \<open>
  \<open>get_target\<close>. The result is what the function returns or raises, with the URLs it
  has sent a GET to, in order. The first \<open>input()\<close> stands outside the \<open>try\<close> and the
  second inside the handler, so \<open>EOFError\<close> and \<open>KeyboardInterrupt\<close> leave the function,
  and so does an exception of the GET that is no \<open>RequestException\<close>. The answer to
  "Continue anyway?" is lower-cased, not stripped.
\<close>

fun get_target ::
  "(string \<Rightarrow> py_exception + http_result) \<Rightarrow> input_event list
     \<Rightarrow> (py_exception + string) \<times> string list"
where
  "get_target requests_get [] = (Inl EOFError, [])"
| "get_target requests_get (Interrupt # evs) = (Inl KeyboardInterrupt, [])"
| "get_target requests_get (Line s # evs) =
     (let target = strip s in
      if target \<noteq> [] then
        (let validated_target = validate_url target in
         case requests_get validated_target of
           Inl e \<Rightarrow> (Inl e, [validated_target])
         | Inr (Response r) \<Rightarrow> (Inr validated_target, [validated_target])
         | Inr (RequestException f msg) \<Rightarrow>
             (case evs of
                [] \<Rightarrow> (Inl EOFError, [validated_target])
              | Interrupt # evs' \<Rightarrow> (Inl KeyboardInterrupt, [validated_target])
              | Line choice # evs' \<Rightarrow>
                  if lower choice = ''y'' then (Inr validated_target, [validated_target])
                  else (let (res, probes) = get_target requests_get evs'
                        in (res, validated_target # probes))))
      else get_target requests_get evs)"

text \<open>
  \<open>scan_port\<close>: \<open>connect_ex\<close> is the outcome of the connection attempt to the host and
  port, under the socket's timeout of 2 seconds.
\<close>

definition scan_port :: "(string \<Rightarrow> int \<Rightarrow> connect_result) \<Rightarrow> string \<Rightarrow> int \<Rightarrow> int \<times> bool" where
  "scan_port connect_ex hostname port =
     (case connect_ex hostname port of
        Errno result \<Rightarrow> (port, result = 0)
      | SocketError \<Rightarrow> (port, False))"

text \<open>
  \<open>port_scan\<close> of server_recon.py: one future per port of \<open>COMMON_PORTS\<close>, read in
  submission order; \<open>port_futures\<close> holds what each worker returned. \<open>getservbyport\<close>
  gives no name when the library call raises. The result is \<open>open_ports\<close> and the lines
  printed in the loop and after it.
\<close>

definition port_futures :: "(string \<Rightarrow> int \<Rightarrow> connect_result) \<Rightarrow> string \<Rightarrow> (int \<times> bool) list" where
  "port_futures connect_ex hostname = map (scan_port connect_ex hostname) COMMON_PORTS"

fun port_loop ::
  "(int \<Rightarrow> string option) \<Rightarrow> (int \<times> bool) list \<Rightarrow> int list \<times> string list
     \<Rightarrow> int list \<times> string list"
where
  "port_loop getservbyport [] acc = acc"
| "port_loop getservbyport ((port, is_open) # fs) (open_ports, out) =
     (if is_open then
        (let service = (case getservbyport port of Some name \<Rightarrow> name | None \<Rightarrow> ''unknown'')
         in port_loop getservbyport fs
              (open_ports @ [port],
               out @ [print_success (''Port '' @ str_int port @ ''/tcp is OPEN - '' @ service)]))
      else port_loop getservbyport fs (open_ports, out))"

definition recon_port_scan ::
  "(string \<Rightarrow> int \<Rightarrow> connect_result) \<Rightarrow> (int \<Rightarrow> string option) \<Rightarrow> string
     \<Rightarrow> int list \<times> string list"
where
  "recon_port_scan connect_ex getservbyport hostname =
     (let (open_ports, out) =
            port_loop getservbyport (port_futures connect_ex hostname) ([], [])
      in (open_ports,
          out @ [if open_ports \<noteq> []
                 then print_success (''Found '' @ str_nat (length open_ports) @ '' open ports'')
                 else print_info ''No common open ports found.'']))"

text \<open>
  \<open>check_hidden_path\<close>. \<open>urljoin\<close> is the library's function, a parameter here. The bare
  \<open>except\<close> swallows every fault and the function falls through to \<open>return None\<close>.
\<close>

definition check_hidden_path ::
  "(string \<Rightarrow> string \<Rightarrow> string) \<Rightarrow> (string \<Rightarrow> http_result) \<Rightarrow> string \<Rightarrow> string
     \<Rightarrow> (string \<times> int \<times> nat) option"
where
  "check_hidden_path urljoin requests_get base path =
     (let test_url = urljoin base path in
      case requests_get test_url of
        Response r \<Rightarrow>
          if status_code r \<in> set [200, 301, 302, 403]
          then Some (test_url, status_code r, length (content r)) else None
      | RequestException f msg \<Rightarrow> None)"

text \<open>
  \<open>find_hidden_paths\<close>: one future per path of \<open>HIDDEN_PATHS\<close>, read in submission
  order; \<open>hidden_futures\<close> holds what each worker returned. The result is \<open>found_paths\<close>
  and the lines printed in the loop and after it.
\<close>

definition hidden_futures ::
  "(string \<Rightarrow> string \<Rightarrow> string) \<Rightarrow> (string \<Rightarrow> http_result) \<Rightarrow> string
     \<Rightarrow> (string \<times> int \<times> nat) option list"
where
  "hidden_futures urljoin requests_get base =
     map (check_hidden_path urljoin requests_get base) HIDDEN_PATHS"

fun hidden_loop ::
  "(string \<times> int \<times> nat) option list \<Rightarrow> string list \<times> string list \<Rightarrow> string list \<times> string list"
where
  "hidden_loop [] acc = acc"
| "hidden_loop (None # fs) acc = hidden_loop fs acc"
| "hidden_loop (Some (test_url, status, content_length) # fs) (found_paths, out) =
     (let status_color = (if status = 200 then Fore_GREEN else Fore_YELLOW) in
      hidden_loop fs
        (found_paths @ [test_url],
         out @ [print_success (''Found: '' @ test_url @ '' (Status: '' @ status_color
                  @ str_int status @ Style_RESET_ALL @ '', Size: '' @ str_nat content_length
                  @ '' bytes)'')]))"

definition find_hidden_paths ::
  "(string \<Rightarrow> string \<Rightarrow> string) \<Rightarrow> (string \<Rightarrow> http_result) \<Rightarrow> string
     \<Rightarrow> string list \<times> string list"
where
  "find_hidden_paths urljoin requests_get base =
     (let (found_paths, out) = hidden_loop (hidden_futures urljoin requests_get base) ([], [])
      in (found_paths,
          out @ [if found_paths = [] then print_info ''No common hidden paths found.''
                 else print_success (''Found '' @ str_nat (length found_paths)
                        @ '' accessible hidden paths!'')]))"

section \<open>info.py\<close>

text \<open>
  \<open>main\<close> up to the call of \<open>continuous_monitoring\<close>: the hostname prompt, the default
  for an empty answer, and the interval prompt (whose value, a float, is left out). The
  tool installs a SIGINT handler that stops the tool and exits, so Ctrl-C at a prompt ends
  the process; \<open>EOFError\<close> is not caught.
\<close>

datatype main_outcome = Monitoring string | Exit_by_signal | Uncaught py_exception

fun info_main :: "input_event list \<Rightarrow> main_outcome" where
  "info_main [] = Uncaught EOFError"
| "info_main (Interrupt # evs) = Exit_by_signal"
| "info_main (Line s # evs) =
     (let hostname = strip s;
          hostname = (if hostname = [] then ''google.com'' else hostname)
      in case evs of
           [] \<Rightarrow> Uncaught EOFError
         | Interrupt # evs' \<Rightarrow> Exit_by_signal
         | Line interval # evs' \<Rightarrow> Monitoring hostname)"

text \<open>
  The reply of the geolocation service to \<open>requests.get\<close>: a response with its status
  code and what \<open>response.json()\<close> gives (nothing when the body is not JSON and the call
  raises), or an exception. The JSON value is of any type \<open>'d\<close>.
\<close>

datatype 'd geo_reply = Geo_response int "'d option" | Geo_exception

text \<open>
  The part of \<open>ServerInfoGatherer\<close> that \<open>get_geolocation\<close> touches: the dictionary
  \<open>geo_cache\<close>. \<open>outbound\<close> is the list of the addresses a GET to the service was sent
  for, kept to count the calls.
\<close>

record 'd gatherer =
  geo_cache :: "string \<rightharpoonup> 'd"
  outbound :: "string list"

definition get_geolocation ::
  "(string \<Rightarrow> 'd geo_reply) \<Rightarrow> string \<Rightarrow> 'd gatherer \<Rightarrow> 'd option \<times> 'd gatherer"
where
  "get_geolocation requests_get ip self =
     (case geo_cache self ip of
        Some data \<Rightarrow> (Some data, self)
      | None \<Rightarrow>
          (let self1 = self\<lparr>outbound := outbound self @ [ip]\<rparr> in
           case requests_get ip of
             Geo_response status body \<Rightarrow>
               if status = 200 then
                 (case body of
                    Some data \<Rightarrow> (Some data, self1\<lparr>geo_cache := (geo_cache self1)(ip \<mapsto> data)\<rparr>)
                  | None \<Rightarrow> (None, self1))
               else (None, self1)
           | Geo_exception \<Rightarrow> (None, self1)))"

text \<open>
  The same function in the steps another thread can come between: the test
  \<open>ip in self.geo_cache\<close>, the GET (which blocks on the network), and the store with the
  return. The code takes no lock around them. A worker is a call of \<open>get_geolocation\<close> at
  one of these points; a schedule names, step by step, the worker that runs next.
\<close>

datatype 'd worker =
  Calling string | Missed string | Received string "'d geo_reply" | Returned "'d option"

fun worker_step ::
  "(string \<Rightarrow> 'd geo_reply) \<Rightarrow> 'd worker \<Rightarrow> 'd gatherer \<Rightarrow> 'd worker \<times> 'd gatherer"
where
  "worker_step requests_get (Calling ip) self =
     (case geo_cache self ip of
        Some data \<Rightarrow> (Returned (Some data), self)
      | None \<Rightarrow> (Missed ip, self))"
| "worker_step requests_get (Missed ip) self =
     (Received ip (requests_get ip), self\<lparr>outbound := outbound self @ [ip]\<rparr>)"
| "worker_step requests_get (Received ip (Geo_response status body)) self =
     (if status = 200 then
        (case body of
           Some data \<Rightarrow> (Returned (Some data), self\<lparr>geo_cache := (geo_cache self)(ip \<mapsto> data)\<rparr>)
         | None \<Rightarrow> (Returned None, self))
      else (Returned None, self))"
| "worker_step requests_get (Received ip Geo_exception) self = (Returned None, self)"
| "worker_step requests_get (Returned r) self = (Returned r, self)"

fun run_schedule ::
  "(string \<Rightarrow> 'd geo_reply) \<Rightarrow> nat list \<Rightarrow> 'd worker list \<Rightarrow> 'd gatherer
     \<Rightarrow> 'd worker list \<times> 'd gatherer"
where
  "run_schedule requests_get [] ws self = (ws, self)"
| "run_schedule requests_get (i # sched) ws self =
     (if i < length ws then
        (let (t, self') = worker_step requests_get (ws ! i) self
         in run_schedule requests_get sched (ws[i := t]) self')
      else run_schedule requests_get sched ws self)"

text \<open>
  \<open>port_scan\<close> of info.py. \<open>connect_ex n ip port\<close> is the outcome of the connection
  attempt to the port when \<open>n\<close> attempts of this scan have gone before, under the socket's
  timeout of 1 second; any exception at a port goes on to the next port.
\<close>

definition default_ports :: "int list" where
  "default_ports = [80, 443, 22, 21, 25, 53, 110, 143, 993, 995]"

fun port_scan_loop ::
  "(nat \<Rightarrow> string \<Rightarrow> int \<Rightarrow> connect_result) \<Rightarrow> string \<Rightarrow> int list \<Rightarrow> nat \<Rightarrow> int list \<Rightarrow> int list"
where
  "port_scan_loop connect_ex ip [] n open_ports = open_ports"
| "port_scan_loop connect_ex ip (port # ports) n open_ports =
     (case connect_ex n ip port of
        Errno result \<Rightarrow>
          if result = 0 then port_scan_loop connect_ex ip ports (Suc n) (open_ports @ [port])
          else port_scan_loop connect_ex ip ports (Suc n) open_ports
      | SocketError \<Rightarrow> port_scan_loop connect_ex ip ports (Suc n) open_ports)"

definition port_scan ::
  "(nat \<Rightarrow> string \<Rightarrow> int \<Rightarrow> connect_result) \<Rightarrow> string \<Rightarrow> int list \<Rightarrow> int list"
where
  "port_scan connect_ex ip ports = port_scan_loop connect_ex ip ports 0 []"

text \<open>
  \<open>get_http_headers\<close>. \<open>response.headers\<close> is a case-insensitive dictionary. The
  dictionary the function returns has the key \<open>via_http\<close> or the key \<open>via_https\<close>; both
  are read with \<open>.get\<close> only, so a missing key is \<open>False\<close> here.
\<close>

definition headers_get :: "(string \<times> string) list \<Rightarrow> string \<Rightarrow> string \<Rightarrow> string" where
  "headers_get hs key dflt =
     (case map_of (map (\<lambda>(k, v). (lower k, v)) hs) (lower key) of
        None \<Rightarrow> dflt
      | Some v \<Rightarrow> v)"

record http_info =
  info_status_code :: int
  info_headers :: "(string \<times> string) list"
  server :: string
  via_http :: bool
  via_https :: bool

definition get_http_headers :: "(string \<Rightarrow> http_result) \<Rightarrow> string \<Rightarrow> http_info option" where
  "get_http_headers requests_get ip =
     (case requests_get (''http://'' @ ip) of
        Response r \<Rightarrow>
          Some \<lparr>info_status_code = status_code r, info_headers = headers r,
                server = headers_get (headers r) ''Server'' ''Unknown'',
                via_http = True, via_https = False\<rparr>
      | RequestException f msg \<Rightarrow>
          (case requests_get (''https://'' @ ip) of
             Response r \<Rightarrow>
               Some \<lparr>info_status_code = status_code r, info_headers = headers r,
                     server = headers_get (headers r) ''Server'' ''Unknown'',
                     via_http = False, via_https = True\<rparr>
           | RequestException f' msg' \<Rightarrow> None))"

section \<open>Auxiliary facts about the primitives\<close>

lemma py_in_sublist: "py_in xs ys = sublist xs ys"
  by (induction ys) (auto simp: sublist_Cons_right)

lemma set_subseq_subset: "subseq xs ys \<Longrightarrow> set xs \<subseteq> set ys"
  by (induction rule: list_emb.induct) auto

lemma count_list_le_subseq: "subseq xs ys \<Longrightarrow> count_list xs a \<le> count_list ys a"
  by (induction rule: list_emb.induct) auto

section \<open>validate_url\<close>

lemma validate_url_prefixed:
  "prefix ''http://'' (validate_url u) \<or> prefix ''https://'' (validate_url u)"
  by (simp add: validate_url_def)

text \<open>
  C9: \<open>validate_url\<close> returns its argument unchanged exactly when the argument already
  starts with \<open>http://\<close> or \<open>https://\<close>, and otherwise returns \<open>http://\<close> prepended to
  it; so applying it twice gives the same as applying it once.
\<close>

theorem validate_url_idempotent:
  "validate_url u = (if prefix ''http://'' u \<or> prefix ''https://'' u then u else ''http://'' @ u)
   \<and> ((validate_url u = u) = (prefix ''http://'' u \<or> prefix ''https://'' u))
   \<and> validate_url (validate_url u) = validate_url u"
proof -
  have fixed: "validate_url v = v" if "prefix ''http://'' v \<or> prefix ''https://'' v" for v
    using that by (simp add: validate_url_def)
  have twice: "validate_url (validate_url u) = validate_url u"
    by (rule fixed) (rule validate_url_prefixed)
  have unchanged: "(validate_url u = u) = (prefix ''http://'' u \<or> prefix ''https://'' u)"
    by (auto simp: validate_url_def)
  have shape: "validate_url u =
      (if prefix ''http://'' u \<or> prefix ''https://'' u then u else ''http://'' @ u)"
    by (simp add: validate_url_def)
  from shape unchanged twice show ?thesis by blast
qed

theorem validate_url_idempotent_witness:
  "validate_url ''example.com'' = ''http://example.com''
   \<and> validate_url (validate_url ''example.com'') = ''http://example.com''
   \<and> validate_url ''https://example.com'' = ''https://example.com''"
  using validate_url_idempotent [of "''example.com''"]
        validate_url_idempotent [of "''https://example.com''"]
  by (simp add: validate_url_def)

section \<open>port_scan of info.py\<close>

lemma port_scan_loop_filter:
  "port_scan_loop c ip ports n acc =
     acc @ map snd (filter (\<lambda>(k, p). c k ip p = Errno 0) (enumerate n ports))"
  by (induction ports arbitrary: n acc) (auto split: connect_result.splits)

lemma port_scan_filter:
  "port_scan c ip ports = map snd (filter (\<lambda>(k, p). c k ip p = Errno 0) (enumerate 0 ports))"
  by (simp add: port_scan_def port_scan_loop_filter)

lemma subseq_map_snd_filter_enumerate: "subseq (map snd (filter P (enumerate n xs))) xs"
  by (induction xs arbitrary: n) auto

text \<open>
  C10: for every address and every list of ports, \<open>port_scan\<close> of info.py returns a
  subsequence of the list: every returned port occurs in the input, in the same relative
  order, no more often than in the input. The function is total: whatever the connection
  attempts do (an errno, an exception), it returns a list.
\<close>

theorem port_scan_subsequence:
  "subseq (port_scan c ip ports) ports
   \<and> set (port_scan c ip ports) \<subseteq> set ports
   \<and> (\<forall>p. count_list (port_scan c ip ports) p \<le> count_list ports p)"
proof -
  have s: "subseq (port_scan c ip ports) ports"
    by (simp add: port_scan_filter subseq_map_snd_filter_enumerate)
  show ?thesis
    using s set_subseq_subset [OF s] count_list_le_subseq [OF s] by simp
qed

theorem port_scan_subsequence_witness:
  "port_scan (\<lambda>n ip p. if p = 80 then Errno 0 else if p = 443 then Errno 111 else SocketError)
     ''192.0.2.7'' [80, 443, 22, 80] = [80, 80]
   \<and> subseq [80, 80] [80, 443, 22, 80 :: int]"
  using port_scan_subsequence
    [of "\<lambda>n ip p. if p = 80 then Errno 0 else if p = 443 then Errno 111 else SocketError"
        "''192.0.2.7''" "[80, 443, 22, 80]"]
  by (simp add: port_scan_def)

section \<open>The classifiers of server_recon.py and info.py\<close>

lemma hidden_loop_found:
  "fst (hidden_loop fs acc) = fst acc @ map (fst \<circ> the) (filter (\<lambda>x. x \<noteq> None) fs)"
proof (induction fs acc rule: hidden_loop.induct)
  case (1 acc)
  show ?case by simp
next
  case (2 fs acc)
  then show ?case by simp
next
  case (3 test_url status content_length fs found_paths out)
  then show ?case by (simp add: Let_def)
qed

lemma check_hidden_path_url:
  "check_hidden_path urljoin g base p = Some (u, st, n) \<Longrightarrow> u = urljoin base p"
  by (auto simp: check_hidden_path_def Let_def split: http_result.splits if_splits)

lemma find_hidden_paths_found:
  "fst (find_hidden_paths urljoin g base) =
     map (urljoin base) (filter (\<lambda>p. check_hidden_path urljoin g base p \<noteq> None) HIDDEN_PATHS)"
proof -
  have sel: "map (fst \<circ> the) (filter (\<lambda>x. x \<noteq> None) (map (check_hidden_path urljoin g base) ps)) =
        map (urljoin base) (filter (\<lambda>p. check_hidden_path urljoin g base p \<noteq> None) ps)" for ps
    by (induction ps) (auto dest: check_hidden_path_url)
  have "fst (find_hidden_paths urljoin g base) =
          fst (hidden_loop (hidden_futures urljoin g base) ([], []))"
    by (simp add: find_hidden_paths_def split: prod.splits)
  also have "\<dots> = map (fst \<circ> the) (filter (\<lambda>x. x \<noteq> None) (hidden_futures urljoin g base))"
    by (simp only: hidden_loop_found fst_conv append_Nil)
  also have "\<dots> = map (urljoin base)
      (filter (\<lambda>p. check_hidden_path urljoin g base p \<noteq> None) HIDDEN_PATHS)"
    unfolding hidden_futures_def by (rule sel)
  finally show ?thesis .
qed

text \<open>
  C4: a hidden path is reported (Present) exactly when the GET returns a response whose
  status is one of 200, 301, 302, 403; for every other status and for every error or
  timeout the worker returns \<open>None\<close> (Absent). \<open>find_hidden_paths\<close> lists exactly the
  paths whose worker did not return \<open>None\<close>.
\<close>

theorem check_hidden_path_classification:
  "(check_hidden_path urljoin g base path \<noteq> None) =
     (\<exists>r. g (urljoin base path) = Response r \<and> status_code r \<in> {200, 301, 302, 403})
   \<and> (\<forall>r. g (urljoin base path) = Response r \<longrightarrow>
         check_hidden_path urljoin g base path =
           (if status_code r \<in> {200, 301, 302, 403}
            then Some (urljoin base path, status_code r, length (content r)) else None))
   \<and> (\<forall>f msg. g (urljoin base path) = RequestException f msg \<longrightarrow>
         check_hidden_path urljoin g base path = None)
   \<and> fst (find_hidden_paths urljoin g base) =
       map (urljoin base) (filter (\<lambda>p. check_hidden_path urljoin g base p \<noteq> None) HIDDEN_PATHS)"
proof -
  have a: "(check_hidden_path urljoin g base path \<noteq> None) =
     (\<exists>r. g (urljoin base path) = Response r \<and> status_code r \<in> {200, 301, 302, 403})"
    by (auto simp: check_hidden_path_def Let_def split: http_result.splits)
  have b: "\<forall>r. g (urljoin base path) = Response r \<longrightarrow>
         check_hidden_path urljoin g base path =
           (if status_code r \<in> {200, 301, 302, 403}
            then Some (urljoin base path, status_code r, length (content r)) else None)"
    by (simp add: check_hidden_path_def Let_def)
  have c: "\<forall>f msg. g (urljoin base path) = RequestException f msg \<longrightarrow>
         check_hidden_path urljoin g base path = None"
    by (simp add: check_hidden_path_def Let_def)
  from a b c find_hidden_paths_found show ?thesis by blast
qed

theorem check_hidden_path_classification_witness:
  "check_hidden_path (\<lambda>b p. b @ ''/'' @ p)
     (\<lambda>u. if u = ''http://example.com/admin''
           then Response \<lparr>status_code = 403, page_text = ''no'', content = ''no'', headers = []\<rparr>
           else if u = ''http://example.com/login''
           then Response \<lparr>status_code = 404, page_text = '''', content = '''', headers = []\<rparr>
           else RequestException Connection_timeout ''timed out'')
     ''http://example.com'' ''admin'' = Some (''http://example.com/admin'', 403, 2)
   \<and> fst (find_hidden_paths (\<lambda>b p. b @ ''/'' @ p)
     (\<lambda>u. if u = ''http://example.com/admin''
           then Response \<lparr>status_code = 403, page_text = ''no'', content = ''no'', headers = []\<rparr>
           else if u = ''http://example.com/login''
           then Response \<lparr>status_code = 404, page_text = '''', content = '''', headers = []\<rparr>
           else RequestException Connection_timeout ''timed out'')
     ''http://example.com'') = [''http://example.com/admin'']"
  using check_hidden_path_classification
    [of "\<lambda>b p. b @ ''/'' @ p"
        "\<lambda>u. if u = ''http://example.com/admin''
           then Response \<lparr>status_code = 403, page_text = ''no'', content = ''no'', headers = []\<rparr>
           else if u = ''http://example.com/login''
           then Response \<lparr>status_code = 404, page_text = '''', content = '''', headers = []\<rparr>
           else RequestException Connection_timeout ''timed out''"
        "''http://example.com''" "''admin''"]
  by (simp add: check_hidden_path_def HIDDEN_PATHS_def)

lemma port_loop_open:
  "fst (port_loop sv fs acc) = fst acc @ map fst (filter snd fs)"
proof (induction sv fs acc rule: port_loop.induct)
  case (1 sv acc)
  show ?case by simp
next
  case (2 sv port is_open fs open_ports out)
  then show ?case by (simp add: Let_def)
qed

lemma scan_port_verdict: "scan_port c h port = (port, c h port = Errno 0)"
  by (simp add: scan_port_def split: connect_result.splits)

lemma recon_port_scan_open:
  "fst (recon_port_scan c sv h) = filter (\<lambda>port. c h port = Errno 0) COMMON_PORTS"
proof -
  have sel: "map fst (filter snd (map (scan_port c h) ps)) =
      filter (\<lambda>port. c h port = Errno 0) ps" for ps
    by (induction ps) (simp_all add: scan_port_verdict)
  have "fst (recon_port_scan c sv h) = fst (port_loop sv (port_futures c h) ([], []))"
    by (simp add: recon_port_scan_def split: prod.splits)
  also have "\<dots> = map fst (filter snd (port_futures c h))"
    by (simp only: port_loop_open fst_conv append_Nil)
  also have "\<dots> = filter (\<lambda>port. c h port = Errno 0) COMMON_PORTS"
    unfolding port_futures_def by (rule sel)
  finally show ?thesis .
qed

lemma port_scan_constant:
  "port_scan (\<lambda>n. c) h ports = filter (\<lambda>port. c h port = Errno 0) ports"
proof -
  have "map snd (filter (\<lambda>(k, p). c h p = Errno 0) (enumerate n ps)) =
      filter (\<lambda>port. c h port = Errno 0) ps" for n ps
    by (induction ps arbitrary: n) simp_all
  then show ?thesis by (simp add: port_scan_filter)
qed

text \<open>
  C5: a port is reported open (Present) exactly when the connection attempt completes,
  that is \<open>connect_ex\<close> returns 0 within the socket's timeout, and closed (Absent) on a
  refusal, a timeout or an exception. This holds for the worker \<open>scan_port\<close>, for the
  list of open ports of \<open>port_scan\<close> of server_recon.py, and for \<open>port_scan\<close> of info.py,
  on every host and every list of ports. In particular, for a host where port 80 accepts
  connections and ports 81 and 9999 do not, the workers for 80, 81 and 9999 give open,
  closed, closed, and \<open>port_scan\<close> of info.py on these three ports returns port 80 only.
\<close>

theorem scan_port_classification:
  "(\<forall>port. scan_port c h port = (port, c h port = Errno 0))
   \<and> fst (recon_port_scan c sv h) = filter (\<lambda>port. c h port = Errno 0) COMMON_PORTS
   \<and> port_scan c' ip ports =
       map snd (filter (\<lambda>(n, port). c' n ip port = Errno 0) (enumerate 0 ports))
   \<and> port_scan (\<lambda>n. c) h ports = filter (\<lambda>port. c h port = Errno 0) ports
   \<and> (c h 80 = Errno 0 \<and> c h 81 \<noteq> Errno 0 \<and> c h 9999 \<noteq> Errno 0 \<longrightarrow>
         map (scan_port c h) [80, 81, 9999] = [(80, True), (81, False), (9999, False)]
         \<and> port_scan (\<lambda>n. c) h [80, 81, 9999] = [80])"
proof -
  have w: "\<forall>port. scan_port c h port = (port, c h port = Errno 0)"
    by (simp add: scan_port_verdict)
  have r: "fst (recon_port_scan c sv h) = filter (\<lambda>port. c h port = Errno 0) COMMON_PORTS"
    by (rule recon_port_scan_open)
  have p: "port_scan c' ip ports =
       map snd (filter (\<lambda>(n, port). c' n ip port = Errno 0) (enumerate 0 ports))"
    by (rule port_scan_filter)
  have q: "port_scan (\<lambda>n. c) h ports = filter (\<lambda>port. c h port = Errno 0) ports"
    by (rule port_scan_constant)
  have s: "c h 80 = Errno 0 \<and> c h 81 \<noteq> Errno 0 \<and> c h 9999 \<noteq> Errno 0 \<longrightarrow>
         map (scan_port c h) [80, 81, 9999] = [(80, True), (81, False), (9999, False)]
         \<and> port_scan (\<lambda>n. c) h [80, 81, 9999] = [80]"
    by (simp add: scan_port_verdict port_scan_constant)
  show ?thesis
    by (rule conjI [OF w conjI [OF r conjI [OF p conjI [OF q s]]]])
qed

theorem scan_port_classification_witness:
  "map (scan_port (\<lambda>h p. if p = 80 then Errno 0 else if p = 81 then Errno 111 else Errno 11)
          ''example.com'') [80, 81, 9999] = [(80, True), (81, False), (9999, False)]
   \<and> port_scan (\<lambda>n h p. if p = 80 then Errno 0 else if p = 81 then Errno 111 else Errno 11)
          ''example.com'' [80, 81, 9999] = [80]
   \<and> fst (recon_port_scan
          (\<lambda>h p. if p = 80 then Errno 0 else if p = 81 then Errno 111 else Errno 11)
          (\<lambda>p. None) ''example.com'') = [80]"
proof -
  let ?c = "\<lambda>(h :: string) (p :: int).
    if p = 80 then Errno 0 else if p = 81 then Errno 111 else Errno 11"
  have h: "?c ''example.com'' 80 = Errno 0 \<and> ?c ''example.com'' 81 \<noteq> Errno 0
      \<and> ?c ''example.com'' 9999 \<noteq> Errno 0"
    by simp
  note t = scan_port_classification [of ?c "''example.com''" "\<lambda>p. None"]
  have scenario: "map (scan_port ?c ''example.com'') [80, 81, 9999] =
        [(80, True), (81, False), (9999, False)]
      \<and> port_scan (\<lambda>n. ?c) ''example.com'' [80, 81, 9999] = [80]"
    by (rule mp [OF conjunct2 [OF conjunct2 [OF conjunct2 [OF conjunct2 [OF t]]]] h])
  have "fst (recon_port_scan ?c (\<lambda>p. None) ''example.com'') =
      filter (\<lambda>port. ?c ''example.com'' port = Errno 0) COMMON_PORTS"
    by (rule conjunct1 [OF conjunct2 [OF t]])
  then have "fst (recon_port_scan ?c (\<lambda>p. None) ''example.com'') = [80]"
    by (simp add: COMMON_PORTS_def)
  with scenario show ?thesis by simp
qed

text \<open>
  C6: \<open>get_http_headers\<close> returns the header information (Present) whenever the HTTP
  request or, after it has failed, the HTTPS request is answered, whatever the status
  code and the headers of the answer, and \<open>None\<close> (Indeterminate) only when both
  requests fail.
\<close>

theorem get_http_headers_presence:
  "(get_http_headers g ip \<noteq> None) =
     ((\<exists>r. g (''http://'' @ ip) = Response r) \<or> (\<exists>r. g (''https://'' @ ip) = Response r))
   \<and> (get_http_headers g ip = None) =
     ((\<exists>f msg. g (''http://'' @ ip) = RequestException f msg)
      \<and> (\<exists>f msg. g (''https://'' @ ip) = RequestException f msg))"
proof -
  have a: "(get_http_headers g ip \<noteq> None) =
     ((\<exists>r. g (''http://'' @ ip) = Response r) \<or> (\<exists>r. g (''https://'' @ ip) = Response r))"
    by (auto simp: get_http_headers_def split: http_result.splits)
  have b: "(get_http_headers g ip = None) =
     ((\<exists>f msg. g (''http://'' @ ip) = RequestException f msg)
      \<and> (\<exists>f msg. g (''https://'' @ ip) = RequestException f msg))"
    by (auto simp: get_http_headers_def split: http_result.splits)
  from a b show ?thesis by blast
qed

theorem get_http_headers_presence_witness:
  "get_http_headers
     (\<lambda>u. if u = ''https://192.0.2.7''
           then Response \<lparr>status_code = 503, page_text = '''', content = '''',
                           headers = [(''server'', ''nginx'')]\<rparr>
           else RequestException Connection_refused ''refused'') ''192.0.2.7''
     = Some \<lparr>info_status_code = 503, info_headers = [(''server'', ''nginx'')],
              server = ''nginx'', via_http = False, via_https = True\<rparr>
   \<and> get_http_headers (\<lambda>u. RequestException Connection_timeout ''timed out'') ''192.0.2.7''
     = None"
proof -
  have v1: "get_http_headers
     (\<lambda>u. if u = ''https://192.0.2.7''
           then Response \<lparr>status_code = 503, page_text = '''', content = '''',
                           headers = [(''server'', ''nginx'')]\<rparr>
           else RequestException Connection_refused ''refused'') ''192.0.2.7''
     = Some \<lparr>info_status_code = 503, info_headers = [(''server'', ''nginx'')],
              server = ''nginx'', via_http = False, via_https = True\<rparr>"
    by code_simp
  have v2: "get_http_headers (\<lambda>u. RequestException Connection_timeout ''timed out'')
      ''192.0.2.7'' = None"
    using get_http_headers_presence
      [of "\<lambda>u. RequestException Connection_timeout ''timed out''" "''192.0.2.7''"]
    by simp
  from v1 v2 show ?thesis by blast
qed

section \<open>run_search and check_platform of findingnemo.py\<close>

lemma as_completed_nth:
  "set order \<subseteq> {..<length fs} \<Longrightarrow> as_completed order fs = map (\<lambda>i. fs ! i) order"
  unfolding as_completed_def by (induction order) auto

lemma as_completed_map: "as_completed order (map f xs) = map f (as_completed order xs)"
  unfolding as_completed_def by (induction order) auto

lemma mset_as_completed:
  assumes "mset order = mset [0..<length fs]"
  shows "mset (as_completed order fs) = mset fs"
proof -
  have "set order = set [0..<length fs]" using assms by (rule mset_eq_setD)
  then have "set order \<subseteq> {..<length fs}" by auto
  then have "mset (as_completed order fs) = image_mset (\<lambda>i. fs ! i) (mset order)"
    by (simp add: as_completed_nth)
  also have "\<dots> = mset (map (\<lambda>i. fs ! i) [0..<length fs])" by (simp add: assms)
  also have "\<dots> = mset fs" by (simp add: map_nth)
  finally show ?thesis .
qed

lemma check_platform_in_table:
  assumes "map_of table platform = Some d"
  shows "check_platform table g platform username =
     (case g (str_format (url d) username) of
        Inl e \<Rightarrow> Inl e
      | Inr (Response r) \<Rightarrow>
          Inr (platform, str_format (url d) username,
               status_code r = 200 \<and>
                 scan_indicators (case error d of None \<Rightarrow> [] | Some es \<Rightarrow> es) (page_text r),
               if status_code r = 200 then ''Success''
               else ''Status: '' @ str_int (status_code r))
      | Inr (RequestException f msg) \<Rightarrow>
          Inr (platform, str_format (url d) username, False, ''Error: '' @ msg))"
  using assms
  by (simp add: check_platform_def Let_def split: sum.splits http_result.splits)

text \<open>An exception of the GET that is no \<open>RequestException\<close> leaves the worker.\<close>

lemma check_platform_raises:
  assumes "map_of table platform = Some d"
    and "g (str_format (url d) username) = Inl e"
  shows "check_platform table g platform username = Inl e"
  using assms by (simp add: check_platform_in_table)

lemma check_platform_returns:
  assumes "map_of table platform = Some d"
    and "g (str_format (url d) username) = Inr x"
  shows "\<exists>found message. check_platform table g platform username =
           Inr (platform, str_format (url d) username, found, message)"
  using assms by (cases x) (auto simp: check_platform_in_table)

lemma check_platform_key:
  assumes "platform \<in> fst ` set table"
    and "\<forall>p d. map_of table p = Some d \<longrightarrow> (\<exists>x. g (str_format (url d) username) = Inr x)"
  shows "\<exists>u found message.
           check_platform table g platform username = Inr (platform, u, found, message)"
proof -
  from assms(1) obtain d where d: "map_of table platform = Some d"
    by (metis domD dom_map_of_conv_image_fst)
  from assms(2) d obtain x where "g (str_format (url d) username) = Inr x" by blast
  with d show ?thesis using check_platform_returns by blast
qed

lemma futures_all_Inr:
  assumes "\<forall>p d. map_of table p = Some d \<longrightarrow> (\<exists>x. g (str_format (url d) username) = Inr x)"
  shows "futures table g username =
     map Inr (map (\<lambda>p. projr (check_platform table g p username)) (map fst table))"
proof -
  have "check_platform table g p username = Inr (projr (check_platform table g p username))"
    if "p \<in> fst ` set table" for p
    using check_platform_key [where table = table and g = g and username = username, OF that assms]
    by auto
  then show ?thesis by (simp add: futures_def)
qed

lemma fst_worker_result:
  assumes "p \<in> fst ` set table"
    and "\<forall>p d. map_of table p = Some d \<longrightarrow> (\<exists>x. g (str_format (url d) username) = Inr x)"
  shows "fst (projr (check_platform table g p username)) = p"
  using check_platform_key [where table = table and g = g and username = username, OF assms]
  by auto

lemma search_loop_Inr:
  "search_loop (map Inr rs) rep =
     Inr \<lparr>printed = printed rep @ rs,
          found_count = found_count rep + length (filter (\<lambda>(p, u, found, m). found) rs)\<rparr>"
  by (induction rs arbitrary: rep) auto

lemma run_search_report:
  assumes "\<forall>p d. map_of table p = Some d \<longrightarrow> (\<exists>x. g (str_format (url d) username) = Inr x)"
  shows "run_search table g order username =
     Inr \<lparr>printed = as_completed order
            (map (\<lambda>p. projr (check_platform table g p username)) (map fst table)),
          found_count = length (filter (\<lambda>(p, u, found, m). found)
            (as_completed order
               (map (\<lambda>p. projr (check_platform table g p username)) (map fst table))))\<rparr>"
proof -
  have "as_completed order (futures table g username) =
          map Inr (as_completed order
            (map (\<lambda>p. projr (check_platform table g p username)) (map fst table)))"
    by (simp only: futures_all_Inr [where table = table and g = g and username = username, OF assms]
        as_completed_map)
  then show ?thesis
    unfolding run_search_def by (simp only: search_loop_Inr search_report.simps append_Nil add_0)
qed

lemma run_search_printed:
  assumes "mset order = mset [0..<length table]"
    and "\<forall>p d. map_of table p = Some d \<longrightarrow> (\<exists>x. g (str_format (url d) username) = Inr x)"
  shows "\<exists>rep. run_search table g order username = Inr rep
           \<and> length (printed rep) = length table
           \<and> mset (map fst (printed rep)) = mset (map fst table)
           \<and> mset (map Inr (printed rep)) = mset (futures table g username)
           \<and> found_count rep = length (filter (\<lambda>(p, u, found, m). found) (printed rep))"
proof -
  let ?vs = "map (\<lambda>p. projr (check_platform table g p username)) (map fst table)"
  have m: "mset (as_completed order ?vs) = mset ?vs"
    by (rule mset_as_completed) (simp add: assms(1))
  have "size (mset (as_completed order ?vs)) = size (mset ?vs)"
    by (simp only: m)
  then have l: "length (as_completed order ?vs) = length table"
    by simp
  have "map fst ?vs = map fst table"
    using fst_worker_result [where table = table and g = g and username = username, OF _ assms(2)]
    by simp
  moreover have "mset (map fst (as_completed order ?vs)) = mset (map fst ?vs)"
    by (simp only: mset_map m)
  ultimately have k: "mset (map fst (as_completed order ?vs)) = mset (map fst table)"
    by (simp only:)
  have f: "mset (map Inr (as_completed order ?vs)) = mset (futures table g username)"
    using m
    by (simp only: futures_all_Inr [where table = table and g = g and username = username,
          OF assms(2)] mset_map)
  show ?thesis
    using l k f
    by (simp add: run_search_report [where table = table and g = g and username = username,
          OF assms(2)])
qed

lemma port_loop_lines:
  "port_loop sv fs acc =
     (fst acc @ map fst (filter snd fs),
      snd acc @ map (\<lambda>port. print_success (''Port '' @ str_int port @ ''/tcp is OPEN - ''
          @ (case sv port of Some name \<Rightarrow> name | None \<Rightarrow> ''unknown'')))
        (map fst (filter snd fs)))"
proof (induction sv fs acc rule: port_loop.induct)
  case (1 sv acc)
  show ?case by simp
next
  case (2 sv port is_open fs open_ports out)
  then show ?case by (simp add: Let_def)
qed

lemma recon_port_scan_lines:
  "snd (recon_port_scan c sv h) =
     map (\<lambda>port. print_success (''Port '' @ str_int port @ ''/tcp is OPEN - ''
          @ (case sv port of Some name \<Rightarrow> name | None \<Rightarrow> ''unknown'')))
       (fst (recon_port_scan c sv h))
     @ [if fst (recon_port_scan c sv h) \<noteq> []
        then print_success (''Found '' @ str_nat (length (fst (recon_port_scan c sv h)))
               @ '' open ports'')
        else print_info ''No common open ports found.'']"
  by (simp add: recon_port_scan_def port_loop_lines)

lemma hidden_loop_lines:
  "hidden_loop fs acc =
     (fst acc @ map (fst \<circ> the) (filter (\<lambda>x. x \<noteq> None) fs),
      snd acc @ map (\<lambda>x. case the x of (test_url, status, content_length) \<Rightarrow>
          print_success (''Found: '' @ test_url @ '' (Status: ''
            @ (if status = 200 then Fore_GREEN else Fore_YELLOW)
            @ str_int status @ Style_RESET_ALL @ '', Size: '' @ str_nat content_length
            @ '' bytes)''))
        (filter (\<lambda>x. x \<noteq> None) fs))"
proof (induction fs acc rule: hidden_loop.induct)
  case (1 acc)
  show ?case by simp
next
  case (2 fs acc)
  then show ?case by simp
next
  case (3 test_url status content_length fs found_paths out)
  then show ?case by (simp add: Let_def)
qed

lemma find_hidden_paths_lines:
  "snd (find_hidden_paths urljoin g base) =
     map (\<lambda>x. case the x of (test_url, status, content_length) \<Rightarrow>
          print_success (''Found: '' @ test_url @ '' (Status: ''
            @ (if status = 200 then Fore_GREEN else Fore_YELLOW)
            @ str_int status @ Style_RESET_ALL @ '', Size: '' @ str_nat content_length
            @ '' bytes)''))
       (filter (\<lambda>x. x \<noteq> None) (hidden_futures urljoin g base))
     @ [if fst (find_hidden_paths urljoin g base) = []
        then print_info ''No common hidden paths found.''
        else print_success (''Found ''
               @ str_nat (length (fst (find_hidden_paths urljoin g base)))
               @ '' accessible hidden paths!'')]"
  by (simp add: find_hidden_paths_def hidden_loop_lines)

text \<open>
  C1, as the code has it. \<open>run_search\<close>: when every GET is answered or raises a
  \<open>RequestException\<close> (a timeout and a network error are such), then, whatever order the
  futures complete in (the order is a permutation of their positions; the number of
  workers and the latencies enter through it only), the search ends normally and calls
  \<open>print_result\<close> exactly once per platform of the table, with the workers' results,
  none dropped and none twice, and \<open>found_count\<close> counts the found ones.
  \<open>find_hidden_paths\<close> and \<open>port_scan\<close> of server_recon.py always end normally and
  read one worker result per path and per port, but they report the Present probes only:
  the found paths, in submission order, are the paths whose worker did not return \<open>None\<close>,
  the open ports are the ports whose connection completed, one line is printed for each
  of them and one summary line after them; a probe that is absent, timed out or failed
  gets no line and no entry.
\<close>

theorem scan_one_verdict_per_probe:
  assumes "mset order = mset [0..<length table]"
    and "\<forall>p d. map_of table p = Some d \<longrightarrow> (\<exists>x. g (str_format (url d) username) = Inr x)"
  shows "(\<exists>rep. run_search table g order username = Inr rep
            \<and> length (printed rep) = length table
            \<and> mset (map fst (printed rep)) = mset (map fst table)
            \<and> mset (map Inr (printed rep)) = mset (futures table g username)
            \<and> found_count rep = length (filter (\<lambda>(p, u, found, m). found) (printed rep)))
         \<and> length (hidden_futures urljoin g' base) = length HIDDEN_PATHS
         \<and> fst (find_hidden_paths urljoin g' base) =
             map (urljoin base)
               (filter (\<lambda>p. check_hidden_path urljoin g' base p \<noteq> None) HIDDEN_PATHS)
         \<and> snd (find_hidden_paths urljoin g' base) =
             map (\<lambda>x. case the x of (test_url, status, content_length) \<Rightarrow>
                  print_success (''Found: '' @ test_url @ '' (Status: ''
                    @ (if status = 200 then Fore_GREEN else Fore_YELLOW)
                    @ str_int status @ Style_RESET_ALL @ '', Size: '' @ str_nat content_length
                    @ '' bytes)''))
               (filter (\<lambda>x. x \<noteq> None) (hidden_futures urljoin g' base))
             @ [if fst (find_hidden_paths urljoin g' base) = []
                then print_info ''No common hidden paths found.''
                else print_success (''Found ''
                       @ str_nat (length (fst (find_hidden_paths urljoin g' base)))
                       @ '' accessible hidden paths!'')]
         \<and> map fst (port_futures c h) = COMMON_PORTS
         \<and> fst (recon_port_scan c sv h) = filter (\<lambda>port. c h port = Errno 0) COMMON_PORTS
         \<and> snd (recon_port_scan c sv h) =
             map (\<lambda>port. print_success (''Port '' @ str_int port @ ''/tcp is OPEN - ''
                  @ (case sv port of Some name \<Rightarrow> name | None \<Rightarrow> ''unknown'')))
               (fst (recon_port_scan c sv h))
             @ [if fst (recon_port_scan c sv h) \<noteq> []
                then print_success (''Found ''
                       @ str_nat (length (fst (recon_port_scan c sv h))) @ '' open ports'')
                else print_info ''No common open ports found.'']"
proof -
  note search = run_search_printed [where table = table and g = g and username = username,
      OF assms]
  have hl: "length (hidden_futures urljoin g' base) = length HIDDEN_PATHS"
    by (simp add: hidden_futures_def)
  note hf = find_hidden_paths_found [of urljoin g' base]
  note ho = find_hidden_paths_lines [of urljoin g' base]
  have pf: "map fst (port_futures c h) = COMMON_PORTS"
    by (simp add: port_futures_def scan_port_verdict comp_def)
  note po = recon_port_scan_open [of c sv h]
  note pl = recon_port_scan_lines [of c sv h]
  show ?thesis
    by (rule conjI [OF search conjI [OF hl conjI [OF hf conjI [OF ho
          conjI [OF pf conjI [OF po pl]]]]]])
qed

theorem scan_one_verdict_per_probe_witness:
  "mset (rev [0..<length load_platforms]) = mset [0..<length load_platforms]
   \<and> (\<exists>rep. run_search load_platforms
               (\<lambda>u. Inr (RequestException Connection_timeout ''timed out''))
               (rev [0..<length load_platforms]) ''nemo'' = Inr rep
            \<and> length (printed rep) = 15)
   \<and> fst (recon_port_scan
          (\<lambda>h p. if p = 80 then Errno 0 else if p = 81 then Errno 111 else Errno 11)
          (\<lambda>p. None) ''example.com'') = [80]"
proof -
  let ?g = "\<lambda>u :: string. Inr (RequestException Connection_timeout ''timed out'')
    :: py_exception + http_result"
  let ?c = "\<lambda>(h :: string) (p :: int).
    if p = 80 then Errno 0 else if p = 81 then Errno 111 else Errno 11"
  have h: "mset (rev [0..<length load_platforms]) = mset [0..<length load_platforms]"
    by simp
  have r: "\<forall>p d. map_of load_platforms p = Some d \<longrightarrow>
      (\<exists>x. ?g (str_format (url d) ''nemo'') = Inr x)"
    by simp
  have n: "length load_platforms = 15" by (simp add: load_platforms_def)
  note t = scan_one_verdict_per_probe [where table = load_platforms and g = ?g
      and username = "''nemo''" and order = "rev [0..<length load_platforms]"
      and c = ?c and h = "''example.com''" and sv = "\<lambda>p. None", OF h r]
  from conjunct1 [OF t] n have a: "\<exists>rep. run_search load_platforms ?g
       (rev [0..<length load_platforms]) ''nemo'' = Inr rep \<and> length (printed rep) = 15"
    by auto
  have "fst (recon_port_scan ?c (\<lambda>p. None) ''example.com'') =
      filter (\<lambda>port. ?c ''example.com'' port = Errno 0) COMMON_PORTS"
    by (rule conjunct1 [OF conjunct2 [OF conjunct2 [OF conjunct2 [OF conjunct2
          [OF conjunct2 [OF t]]]]]])
  then have b: "fst (recon_port_scan ?c (\<lambda>p. None) ''example.com'') = [80]"
    by (simp add: COMMON_PORTS_def)
  show ?thesis
    by (rule conjI [OF h conjI [OF a b]])
qed

text \<open>
  Against C1 as stated. When all 23 hidden-path probes time out, \<open>find_hidden_paths\<close>
  reports no path and prints the summary line only: 23 probes, no verdict for any of
  them. And when the GET for one platform raises an exception that is no
  \<open>RequestException\<close> (a user name of 64 characters makes the host name of the
  DevianArt URL a label that is too long), \<open>run_search\<close>, reading the futures in
  submission order, ends with that exception after 13 of the 15 results.
\<close>

theorem scan_verdicts_counterexample:
  "find_hidden_paths (\<lambda>b p. b @ ''/'' @ p)
      (\<lambda>u. RequestException Connection_timeout ''timed out'') ''http://example.com''
     = ([], [print_info ''No common hidden paths found.''])
   \<and> length HIDDEN_PATHS = 23
   \<and> length load_platforms = 15
   \<and> isl (run_search load_platforms
        (\<lambda>u. if u = ''https://'' @ replicate 64 (CHR ''a'') @ ''.deviantart.com''
              then Inl (LocationParseError ''label empty or too long'')
              else Inr (Response \<lparr>status_code = 404, page_text = [], content = [],
                                   headers = []\<rparr>))
        [0..<15] (replicate 64 (CHR ''a'')))
   \<and> length (printed (snd (projl (run_search load_platforms
        (\<lambda>u. if u = ''https://'' @ replicate 64 (CHR ''a'') @ ''.deviantart.com''
              then Inl (LocationParseError ''label empty or too long'')
              else Inr (Response \<lparr>status_code = 404, page_text = [], content = [],
                                   headers = []\<rparr>))
        [0..<15] (replicate 64 (CHR ''a'')))))) = 13"
proof -
  have a: "find_hidden_paths (\<lambda>b p. b @ ''/'' @ p)
      (\<lambda>u. RequestException Connection_timeout ''timed out'') ''http://example.com''
     = ([], [print_info ''No common hidden paths found.''])"
    by (simp add: find_hidden_paths_def hidden_futures_def check_hidden_path_def
        HIDDEN_PATHS_def)
  have b: "length HIDDEN_PATHS = 23" by (simp add: HIDDEN_PATHS_def)
  have c: "length load_platforms = 15" by (simp add: load_platforms_def)
  have d: "isl (run_search load_platforms
        (\<lambda>u. if u = ''https://'' @ replicate 64 (CHR ''a'') @ ''.deviantart.com''
              then Inl (LocationParseError ''label empty or too long'')
              else Inr (Response \<lparr>status_code = 404, page_text = [], content = [],
                                   headers = []\<rparr>))
        [0..<15] (replicate 64 (CHR ''a'')))"
    by code_simp
  have e: "length (printed (snd (projl (run_search load_platforms
        (\<lambda>u. if u = ''https://'' @ replicate 64 (CHR ''a'') @ ''.deviantart.com''
              then Inl (LocationParseError ''label empty or too long'')
              else Inr (Response \<lparr>status_code = 404, page_text = [], content = [],
                                   headers = []\<rparr>))
        [0..<15] (replicate 64 (CHR ''a'')))))) = 13"
    by code_simp
  show ?thesis
    by (rule conjI [OF a conjI [OF b conjI [OF c conjI [OF d e]]]])
qed

lemma scan_indicators_iff:
  "scan_indicators es page = (\<forall>e\<in>set es. \<not> sublist (lower e) (lower page))"
  by (induction es) (auto simp: py_in_sublist)

text \<open>
  C2, as the code has it: for a platform of the table, when the GET is answered,
  \<open>check_platform\<close> returns \<open>found = True\<close> exactly when the response status is 200 and
  none of the platform's error indicators occurs, case-insensitively, as a substring of
  the page text; it returns \<open>found = False\<close> when the status is 200 and an indicator
  occurs, and for every other status. When the GET raises a \<open>RequestException\<close> (a
  timeout, a network error) it returns \<open>found = False\<close> as well, with the message
  \<open>Error: \<close> followed by the fault's text; \<open>print_result\<close> prints every result that is
  not found as \<open>NOT FOUND\<close>, whatever the message: there is no third verdict. A found
  result comes from a 200 answer without indicator and from nothing else.
\<close>

theorem check_platform_classification:
  assumes "map_of table platform = Some d"
  shows "(\<forall>r. g (str_format (url d) username) = Inr (Response r) \<longrightarrow>
           check_platform table g platform username =
             Inr (platform, str_format (url d) username,
                  status_code r = 200
                    \<and> (\<forall>e\<in>set (case error d of None \<Rightarrow> [] | Some es \<Rightarrow> es).
                          \<not> sublist (lower e) (lower (page_text r))),
                  if status_code r = 200 then ''Success''
                  else ''Status: '' @ str_int (status_code r)))
    \<and> (\<forall>f msg. g (str_format (url d) username) = Inr (RequestException f msg) \<longrightarrow>
           check_platform table g platform username =
             Inr (platform, str_format (url d) username, False, ''Error: '' @ msg))
    \<and> ((\<exists>message. check_platform table g platform username =
             Inr (platform, str_format (url d) username, True, message))
        = (\<exists>r. g (str_format (url d) username) = Inr (Response r) \<and> status_code r = 200
             \<and> (\<forall>e\<in>set (case error d of None \<Rightarrow> [] | Some es \<Rightarrow> es).
                   \<not> sublist (lower e) (lower (page_text r)))))
    \<and> (\<forall>message. print_result platform (str_format (url d) username) False message =
           [RED @ ''[ NOT FOUND ]'' @ RESET @ '' '' @ BOLD @ platform @ RESET])"
proof -
  note eq = check_platform_in_table [OF assms, of g username]
  have a: "\<forall>r. g (str_format (url d) username) = Inr (Response r) \<longrightarrow>
           check_platform table g platform username =
             Inr (platform, str_format (url d) username,
                  status_code r = 200
                    \<and> (\<forall>e\<in>set (case error d of None \<Rightarrow> [] | Some es \<Rightarrow> es).
                          \<not> sublist (lower e) (lower (page_text r))),
                  if status_code r = 200 then ''Success''
                  else ''Status: '' @ str_int (status_code r))"
    by (simp add: eq scan_indicators_iff)
  have b: "\<forall>f msg. g (str_format (url d) username) = Inr (RequestException f msg) \<longrightarrow>
           check_platform table g platform username =
             Inr (platform, str_format (url d) username, False, ''Error: '' @ msg)"
    by (simp add: eq)
  have c: "(\<exists>message. check_platform table g platform username =
             Inr (platform, str_format (url d) username, True, message))
        = (\<exists>r. g (str_format (url d) username) = Inr (Response r) \<and> status_code r = 200
             \<and> (\<forall>e\<in>set (case error d of None \<Rightarrow> [] | Some es \<Rightarrow> es).
                   \<not> sublist (lower e) (lower (page_text r))))"
    by (auto simp: eq scan_indicators_iff split: sum.splits http_result.splits)
  have p: "\<forall>message. print_result platform (str_format (url d) username) False message =
           [RED @ ''[ NOT FOUND ]'' @ RESET @ '' '' @ BOLD @ platform @ RESET]"
    by (simp add: print_result_def)
  show ?thesis
    by (rule conjI [OF a conjI [OF b conjI [OF c p]]])
qed

theorem check_platform_classification_witness:
  "map_of load_platforms ''GitHub'' =
     Some \<lparr>url = ''https://github.com/{}'',
           error = Some [''This is not the web page you are looking for'']\<rparr>
   \<and> check_platform load_platforms
        (\<lambda>u. Inr (Response \<lparr>status_code = 200, page_text = ''<h1>nemo</h1>'', content = [],
                              headers = []\<rparr>)) ''GitHub'' ''nemo''
       = Inr (''GitHub'', ''https://github.com/nemo'', True, ''Success'')
   \<and> check_platform load_platforms
        (\<lambda>u. Inr (Response \<lparr>status_code = 200,
                              page_text = ''THIS IS NOT THE WEB PAGE YOU ARE LOOKING FOR.'',
                              content = [], headers = []\<rparr>)) ''GitHub'' ''nemo''
       = Inr (''GitHub'', ''https://github.com/nemo'', False, ''Success'')
   \<and> check_platform load_platforms
        (\<lambda>u. Inr (RequestException Connection_timeout ''timed out'')) ''GitHub'' ''nemo''
       = Inr (''GitHub'', ''https://github.com/nemo'', False, ''Error: timed out'')"
proof -
  have h: "map_of load_platforms ''GitHub'' =
     Some \<lparr>url = ''https://github.com/{}'',
           error = Some [''This is not the web page you are looking for'']\<rparr>"
    by (simp add: load_platforms_def)
  have v1: "check_platform load_platforms
        (\<lambda>u. Inr (Response \<lparr>status_code = 200, page_text = ''<h1>nemo</h1>'', content = [],
                              headers = []\<rparr>)) ''GitHub'' ''nemo''
       = Inr (''GitHub'', ''https://github.com/nemo'', True, ''Success'')"
    by code_simp
  have v2: "check_platform load_platforms
        (\<lambda>u. Inr (Response \<lparr>status_code = 200,
                              page_text = ''THIS IS NOT THE WEB PAGE YOU ARE LOOKING FOR.'',
                              content = [], headers = []\<rparr>)) ''GitHub'' ''nemo''
       = Inr (''GitHub'', ''https://github.com/nemo'', False, ''Success'')"
    by code_simp
  note t = check_platform_classification [OF h,
      of "\<lambda>u. Inr (RequestException Connection_timeout ''timed out'')" "''nemo''"]
  have u: "str_format ''https://github.com/{}'' ''nemo'' = ''https://github.com/nemo''"
    by simp
  from conjunct1 [OF conjunct2 [OF t]] have v3: "check_platform load_platforms
        (\<lambda>u. Inr (RequestException Connection_timeout ''timed out'')) ''GitHub'' ''nemo''
       = Inr (''GitHub'', ''https://github.com/nemo'', False, ''Error: timed out'')"
    by (simp add: u)
  show ?thesis
    by (rule conjI [OF h conjI [OF v1 conjI [OF v2 v3]]])
qed

text \<open>
  Against C2 as stated: a connection timeout gives \<open>found = False\<close>, the same verdict as
  a 404 answer, and the two results are printed alike.
\<close>

theorem check_platform_timeout_counterexample:
  "check_platform load_platforms
      (\<lambda>u. Inr (RequestException Connection_timeout ''timed out'')) ''GitHub'' ''nemo''
     = Inr (''GitHub'', ''https://github.com/nemo'', False, ''Error: timed out'')
   \<and> check_platform load_platforms
        (\<lambda>u. Inr (Response \<lparr>status_code = 404, page_text = [], content = [],
                              headers = []\<rparr>))
      ''GitHub'' ''nemo''
     = Inr (''GitHub'', ''https://github.com/nemo'', False, ''Status: 404'')
   \<and> print_result ''GitHub'' ''https://github.com/nemo'' False ''Error: timed out''
     = print_result ''GitHub'' ''https://github.com/nemo'' False ''Status: 404''"
proof -
  have a: "check_platform load_platforms
      (\<lambda>u. Inr (RequestException Connection_timeout ''timed out'')) ''GitHub'' ''nemo''
     = Inr (''GitHub'', ''https://github.com/nemo'', False, ''Error: timed out'')"
    by code_simp
  have b: "check_platform load_platforms
        (\<lambda>u. Inr (Response \<lparr>status_code = 404, page_text = [], content = [],
                              headers = []\<rparr>))
      ''GitHub'' ''nemo''
     = Inr (''GitHub'', ''https://github.com/nemo'', False, ''Status: 404'')"
    by code_simp
  have c: "print_result ''GitHub'' ''https://github.com/nemo'' False ''Error: timed out''
     = print_result ''GitHub'' ''https://github.com/nemo'' False ''Status: 404''"
    by (simp add: print_result_def)
  show ?thesis
    by (rule conjI [OF a conjI [OF b c]])
qed

text \<open>
  C3, as the code has it: every network fault that the GET raises as a
  \<open>RequestException\<close> (DNS failure, refused connection, timeout, TLS or protocol error,
  invalid URL) is caught inside \<open>check_platform\<close> and becomes one terminal value, a
  not-found result whose message is \<open>Error: \<close> followed by the fault's text. Every
  exception of the GET is caught inside \<open>check_hidden_path\<close> and becomes \<open>None\<close>, which
  carries no reason. When every GET is answered or raises a \<open>RequestException\<close>,
  \<open>run_search\<close> ends normally and prints the result of every platform's own worker,
  whatever the other probes did; \<open>find_hidden_paths\<close> lists every path whose own probe
  was answered with a listed status, whatever happened to the other probes.
\<close>

theorem faults_caught_in_worker:
  "(\<forall>d. map_of table platform = Some d \<longrightarrow>
        g (str_format (url d) username) = Inr (RequestException f msg) \<longrightarrow>
        check_platform table g platform username =
          Inr (platform, str_format (url d) username, False, ''Error: '' @ msg))
   \<and> (g' (urljoin base path) = RequestException f msg \<longrightarrow>
        check_hidden_path urljoin g' base path = None)
   \<and> ((\<forall>p d. map_of table p = Some d \<longrightarrow> (\<exists>x. g (str_format (url d) username) = Inr x)) \<longrightarrow>
        (\<exists>rep. run_search table g order username = Inr rep))
   \<and> ((\<forall>p d. map_of table p = Some d \<longrightarrow> (\<exists>x. g (str_format (url d) username) = Inr x))
        \<and> mset order = mset [0..<length table] \<longrightarrow>
        (\<exists>rep. run_search table g order username = Inr rep
           \<and> (\<forall>p\<in>fst ` set table.
                 check_platform table g p username \<in> Inr ` set (printed rep))))
   \<and> (\<forall>p\<in>set HIDDEN_PATHS. check_hidden_path urljoin g' base p \<noteq> None \<longrightarrow>
         urljoin base p \<in> set (fst (find_hidden_paths urljoin g' base)))"
proof -
  have a: "\<forall>d. map_of table platform = Some d \<longrightarrow>
        g (str_format (url d) username) = Inr (RequestException f msg) \<longrightarrow>
        check_platform table g platform username =
          Inr (platform, str_format (url d) username, False, ''Error: '' @ msg)"
    by (simp add: check_platform_in_table)
  have b: "g' (urljoin base path) = RequestException f msg \<longrightarrow>
        check_hidden_path urljoin g' base path = None"
    by (simp add: check_hidden_path_def Let_def)
  have c: "(\<forall>p d. map_of table p = Some d \<longrightarrow> (\<exists>x. g (str_format (url d) username) = Inr x))
        \<longrightarrow> (\<exists>rep. run_search table g order username = Inr rep)"
  proof
    assume ret: "\<forall>p d. map_of table p = Some d \<longrightarrow>
        (\<exists>x. g (str_format (url d) username) = Inr x)"
    show "\<exists>rep. run_search table g order username = Inr rep"
      by (simp add: run_search_report [where table = table and g = g and username = username,
            OF ret])
  qed
  have d: "(\<forall>p d. map_of table p = Some d \<longrightarrow> (\<exists>x. g (str_format (url d) username) = Inr x))
        \<and> mset order = mset [0..<length table] \<longrightarrow>
        (\<exists>rep. run_search table g order username = Inr rep
           \<and> (\<forall>p\<in>fst ` set table.
                 check_platform table g p username \<in> Inr ` set (printed rep)))"
  proof
    assume both: "(\<forall>p d. map_of table p = Some d \<longrightarrow>
        (\<exists>x. g (str_format (url d) username) = Inr x))
        \<and> mset order = mset [0..<length table]"
    then have ret: "\<forall>p d. map_of table p = Some d \<longrightarrow>
        (\<exists>x. g (str_format (url d) username) = Inr x)"
      and perm: "mset order = mset [0..<length table]"
      by blast+
    from run_search_printed [where table = table and g = g and username = username,
        OF perm ret]
    obtain rep where
      r: "run_search table g order username = Inr rep" and
      m: "mset (map Inr (printed rep)) = mset (futures table g username)"
      by blast
    from m have "set (map Inr (printed rep)) = set (futures table g username)"
      by (rule mset_eq_setD)
    then have "\<forall>p\<in>fst ` set table.
        check_platform table g p username \<in> Inr ` set (printed rep)"
      by (auto simp: futures_def)
    with r show "\<exists>rep. run_search table g order username = Inr rep
           \<and> (\<forall>p\<in>fst ` set table.
                 check_platform table g p username \<in> Inr ` set (printed rep))"
      by blast
  qed
  have e: "\<forall>p\<in>set HIDDEN_PATHS. check_hidden_path urljoin g' base p \<noteq> None \<longrightarrow>
         urljoin base p \<in> set (fst (find_hidden_paths urljoin g' base))"
    by (simp add: find_hidden_paths_found)
  show ?thesis
    by (rule conjI [OF a conjI [OF b conjI [OF c conjI [OF d e]]]])
qed

theorem faults_caught_in_worker_witness:
  "map_of load_platforms ''GitHub'' =
     Some \<lparr>url = ''https://github.com/{}'',
           error = Some [''This is not the web page you are looking for'']\<rparr>
   \<and> check_platform load_platforms
        (\<lambda>u. Inr (RequestException DNS_resolution_failure ''Name or service not known''))
        ''GitHub'' ''nemo''
       = Inr (''GitHub'', ''https://github.com/nemo'', False,
              ''Error: Name or service not known'')
   \<and> check_hidden_path (\<lambda>b p. b @ ''/'' @ p)
        (\<lambda>u. RequestException DNS_resolution_failure ''Name or service not known'')
        ''http://example.com'' ''admin'' = None
   \<and> mset (rev [0..<length load_platforms]) = mset [0..<length load_platforms]
   \<and> (\<exists>rep. run_search load_platforms
               (\<lambda>u. Inr (RequestException DNS_resolution_failure
                            ''Name or service not known''))
               (rev [0..<length load_platforms]) ''nemo'' = Inr rep)"
proof -
  let ?g = "\<lambda>u :: string.
    Inr (RequestException DNS_resolution_failure ''Name or service not known'')
      :: py_exception + http_result"
  let ?g' = "\<lambda>u :: string.
    RequestException DNS_resolution_failure ''Name or service not known''"
  have h: "map_of load_platforms ''GitHub'' =
     Some \<lparr>url = ''https://github.com/{}'',
           error = Some [''This is not the web page you are looking for'']\<rparr>"
    by (simp add: load_platforms_def)
  have u: "str_format ''https://github.com/{}'' ''nemo'' = ''https://github.com/nemo''"
    by simp
  have perm: "mset (rev [0..<length load_platforms]) = mset [0..<length load_platforms]"
    by simp
  have ret: "\<forall>p d. map_of load_platforms p = Some d \<longrightarrow>
      (\<exists>x. ?g (str_format (url d) ''nemo'') = Inr x)"
    by simp
  note t = faults_caught_in_worker [where table = load_platforms and platform = "''GitHub''"
      and g = ?g and username = "''nemo''" and f = DNS_resolution_failure
      and msg = "''Name or service not known''" and g' = ?g'
      and urljoin = "\<lambda>b p. b @ ''/'' @ p" and base = "''http://example.com''"
      and path = "''admin''" and order = "rev [0..<length load_platforms]"]
  from conjunct1 [OF t] h u have v1: "check_platform load_platforms ?g ''GitHub'' ''nemo''
       = Inr (''GitHub'', ''https://github.com/nemo'', False,
              ''Error: Name or service not known'')"
    by simp
  from conjunct1 [OF conjunct2 [OF t]]
  have v2: "check_hidden_path (\<lambda>b p. b @ ''/'' @ p) ?g' ''http://example.com'' ''admin''
       = None"
    by simp
  have v3: "\<exists>rep. run_search load_platforms ?g (rev [0..<length load_platforms]) ''nemo''
       = Inr rep"
    by (rule mp [OF conjunct1 [OF conjunct2 [OF conjunct2 [OF t]]] ret])
  show ?thesis
    by (rule conjI [OF h conjI [OF v1 conjI [OF v2 conjI [OF perm v3]]]])
qed

text \<open>
  Against C3 as stated. On a refused connection and on a timeout \<open>check_hidden_path\<close>
  returns the same \<open>None\<close> it returns for a 404 answer: the value has no reason string.
  And a malformed target whose exception is no \<open>RequestException\<close> (a user name of 64
  characters in the host name of the DevianArt URL) is not caught: it leaves
  \<open>check_platform\<close>.
\<close>

theorem check_hidden_path_no_reason_counterexample:
  "check_hidden_path (\<lambda>b p. b @ ''/'' @ p)
      (\<lambda>u. RequestException Connection_refused ''Connection refused'')
      ''http://example.com'' ''admin'' = None
   \<and> check_hidden_path (\<lambda>b p. b @ ''/'' @ p)
      (\<lambda>u. RequestException Connection_timeout ''timed out'')
      ''http://example.com'' ''admin'' = None
   \<and> check_hidden_path (\<lambda>b p. b @ ''/'' @ p)
      (\<lambda>u. Response \<lparr>status_code = 404, page_text = [], content = [], headers = []\<rparr>)
      ''http://example.com'' ''admin'' = None
   \<and> check_platform load_platforms
        (\<lambda>u. if u = ''https://'' @ replicate 64 (CHR ''a'') @ ''.deviantart.com''
              then Inl (LocationParseError ''label empty or too long'')
              else Inr (Response \<lparr>status_code = 404, page_text = [], content = [],
                                   headers = []\<rparr>))
        ''DevianArt'' (replicate 64 (CHR ''a''))
     = Inl (LocationParseError ''label empty or too long'')"
proof -
  have a: "check_hidden_path (\<lambda>b p. b @ ''/'' @ p)
      (\<lambda>u. RequestException Connection_refused ''Connection refused'')
      ''http://example.com'' ''admin'' = None"
    by (simp add: check_hidden_path_def)
  have b: "check_hidden_path (\<lambda>b p. b @ ''/'' @ p)
      (\<lambda>u. RequestException Connection_timeout ''timed out'')
      ''http://example.com'' ''admin'' = None"
    by (simp add: check_hidden_path_def)
  have c: "check_hidden_path (\<lambda>b p. b @ ''/'' @ p)
      (\<lambda>u. Response \<lparr>status_code = 404, page_text = [], content = [], headers = []\<rparr>)
      ''http://example.com'' ''admin'' = None"
    by (simp add: check_hidden_path_def)
  have d: "check_platform load_platforms
        (\<lambda>u. if u = ''https://'' @ replicate 64 (CHR ''a'') @ ''.deviantart.com''
              then Inl (LocationParseError ''label empty or too long'')
              else Inr (Response \<lparr>status_code = 404, page_text = [], content = [],
                                   headers = []\<rparr>))
        ''DevianArt'' (replicate 64 (CHR ''a''))
     = Inl (LocationParseError ''label empty or too long'')"
    by code_simp
  show ?thesis
    by (rule conjI [OF a conjI [OF b conjI [OF c d]]])
qed

section \<open>Target input of the three tools\<close>

lemma get_target_Line:
  "get_target g (Line s # evs) =
     (if strip s = [] then get_target g evs
      else case g (validate_url (strip s)) of
        Inl e \<Rightarrow> (Inl e, [validate_url (strip s)])
      | Inr (Response r) \<Rightarrow> (Inr (validate_url (strip s)), [validate_url (strip s)])
      | Inr (RequestException f msg) \<Rightarrow>
          (case evs of
             [] \<Rightarrow> (Inl EOFError, [validate_url (strip s)])
           | Interrupt # evs' \<Rightarrow> (Inl KeyboardInterrupt, [validate_url (strip s)])
           | Line choice # evs' \<Rightarrow>
               if lower choice = ''y''
               then (Inr (validate_url (strip s)), [validate_url (strip s)])
               else (fst (get_target g evs'),
                     validate_url (strip s) # snd (get_target g evs'))))"
  by (simp add: Let_def
      split: sum.split http_result.split list.split input_event.split prod.split)

lemma get_target_returned_probed:
  "fst (get_target g evs) = Inr t \<Longrightarrow> t \<in> set (snd (get_target g evs))"
proof (induction evs rule: length_induct)
  case (1 evs)
  show ?case
  proof (cases evs)
    case Nil
    with 1 show ?thesis by simp
  next
    case (Cons e rest)
    show ?thesis
    proof (cases e)
      case Interrupt
      with Cons 1 show ?thesis by simp
    next
      case (Line s)
      have short: "length rest < length evs" using Cons by simp
      have short2: "length evs' < length evs" if "rest = c # evs'" for c evs'
        using Cons that by simp
      show ?thesis
        using 1(2) 1(1)[rule_format, OF short] 1(1)[rule_format, OF short2]
        unfolding Cons Line get_target_Line
        by (auto split: sum.splits http_result.splits list.splits input_event.splits
            if_splits)
    qed
  qed
qed

lemma get_target_probes:
  "u \<in> set (snd (get_target g evs)) \<Longrightarrow>
     \<exists>s. Line s \<in> set evs \<and> strip s \<noteq> [] \<and> u = validate_url (strip s)"
proof (induction evs arbitrary: u rule: length_induct)
  case (1 evs)
  show ?case
  proof (cases evs)
    case Nil
    with 1 show ?thesis by simp
  next
    case (Cons e rest)
    show ?thesis
    proof (cases e)
      case Interrupt
      with Cons 1 show ?thesis by simp
    next
      case (Line s)
      have short: "length rest < length evs" using Cons by simp
      have short2: "length evs' < length evs" if "rest = c # evs'" for c evs'
        using Cons that by simp
      show ?thesis
        using 1(2) 1(1)[rule_format, OF short] 1(1)[rule_format, OF short2]
        unfolding Cons Line get_target_Line
        by (fastforce split: sum.splits http_result.splits list.splits input_event.splits
            if_splits)
    qed
  qed
qed

lemma interactive_mode_searched:
  "u \<in> set (fst (interactive_mode evs)) \<Longrightarrow>
     u \<noteq> [] \<and> (\<exists>s. Line s \<in> set evs \<and> u = strip s)"
proof (induction evs arbitrary: u rule: interactive_mode.induct)
  case (3 s evs)
  then show ?case
    by (auto simp: Let_def split: if_splits prod.splits)
qed simp_all

lemma info_main_hostname: "info_main evs = Monitoring h \<Longrightarrow> h \<noteq> []"
  by (cases evs rule: info_main.cases)
     (auto simp: Let_def split: list.splits input_event.splits if_splits)

text \<open>
  The command-line path of findingnemo.py hands \<open>sys.argv[1]\<close> to \<open>run_search\<close> as it
  is, with no test.
\<close>

lemma nemo_main_argv: "nemo_main [prog, arg] evs = ([arg], Finished)"
  by (simp add: nemo_main_def)

text \<open>
  C7, as the code has it: an empty answer (empty after \<open>strip\<close>) at a prompt never
  becomes the target of a probe and never ends the tool. \<open>get_target\<close> of
  server_recon.py asks again: every URL it sends a GET to, and the target it returns, is
  \<open>validate_url\<close> of a non-empty stripped line. The interactive mode of findingnemo.py
  asks again: every username it searches is a non-empty stripped line. \<open>main\<close> of info.py
  does not reject the empty answer but replaces it by \<open>google.com\<close> and starts monitoring
  that host. A non-empty target is not rejected either when its test request fails with
  a \<open>RequestException\<close>: after that one GET, \<open>get_target\<close> asks whether to continue
  and returns the target when the answer, lower-cased, is \<open>y\<close>.
\<close>

theorem empty_target_never_probed:
  "(\<forall>u\<in>set (snd (get_target g evs)).
       \<exists>s. Line s \<in> set evs \<and> strip s \<noteq> [] \<and> u = validate_url (strip s))
   \<and> (\<forall>t. fst (get_target g evs) = Inr t \<longrightarrow> t \<in> set (snd (get_target g evs)))
   \<and> (\<forall>u\<in>set (fst (interactive_mode evs)). u \<noteq> [] \<and> (\<exists>s. Line s \<in> set evs \<and> u = strip s))
   \<and> (\<forall>h. info_main evs = Monitoring h \<longrightarrow> h \<noteq> [])
   \<and> (strip s = [] \<longrightarrow>
         get_target g (Line s # evs) = get_target g evs
         \<and> interactive_mode (Line s # evs) = interactive_mode evs
         \<and> (\<forall>i. info_main (Line s # Line i # evs) = Monitoring ''google.com''))
   \<and> (strip s \<noteq> [] \<and> g (validate_url (strip s)) = Inr (RequestException f msg)
         \<and> lower choice = ''y'' \<longrightarrow>
         get_target g (Line s # Line choice # evs) =
           (Inr (validate_url (strip s)), [validate_url (strip s)]))"
proof -
  have a: "\<forall>u\<in>set (snd (get_target g evs)).
       \<exists>s. Line s \<in> set evs \<and> strip s \<noteq> [] \<and> u = validate_url (strip s)"
    using get_target_probes by blast
  have b: "\<forall>t. fst (get_target g evs) = Inr t \<longrightarrow> t \<in> set (snd (get_target g evs))"
    using get_target_returned_probed by blast
  have c: "\<forall>u\<in>set (fst (interactive_mode evs)).
       u \<noteq> [] \<and> (\<exists>s. Line s \<in> set evs \<and> u = strip s)"
    using interactive_mode_searched by blast
  have d: "\<forall>h. info_main evs = Monitoring h \<longrightarrow> h \<noteq> []"
    using info_main_hostname by blast
  have e: "strip s = [] \<longrightarrow>
         get_target g (Line s # evs) = get_target g evs
         \<and> interactive_mode (Line s # evs) = interactive_mode evs
         \<and> (\<forall>i. info_main (Line s # Line i # evs) = Monitoring ''google.com'')"
    by (simp add: Let_def)
  have k: "strip s \<noteq> [] \<and> g (validate_url (strip s)) = Inr (RequestException f msg)
         \<and> lower choice = ''y'' \<longrightarrow>
         get_target g (Line s # Line choice # evs) =
           (Inr (validate_url (strip s)), [validate_url (strip s)])"
    by (simp add: get_target_Line del: get_target.simps)
  show ?thesis
    by (rule conjI [OF a conjI [OF b conjI [OF c conjI [OF d conjI [OF e k]]]]])
qed

theorem empty_target_never_probed_witness:
  "strip ''  '' = []
   \<and> get_target
        (\<lambda>u. Inr (Response \<lparr>status_code = 200, page_text = [], content = [],
                              headers = []\<rparr>))
        [Line ''  '', Line '' example.com '']
       = (Inr ''http://example.com'', [''http://example.com''])
   \<and> interactive_mode [Line ''  '', Line ''nemo'', Line ''quit''] = ([''nemo''], Goodbye)
   \<and> info_main [Line ''  '', Line ''10''] = Monitoring ''google.com''"
proof -
  let ?g = "\<lambda>u :: string.
    Inr (Response \<lparr>status_code = 200, page_text = [], content = [], headers = []\<rparr>)
      :: py_exception + http_result"
  have e: "strip ''  '' = []" by code_simp
  note last = conjunct1 [OF conjunct2 [OF conjunct2 [OF conjunct2 [OF conjunct2]]]]
  note t1 = last [OF empty_target_never_probed [of ?g "[Line '' example.com '']" "''  ''"],
      rule_format, OF e]
  note t2 = last [OF empty_target_never_probed [of ?g "[Line ''nemo'', Line ''quit'']" "''  ''"],
      rule_format, OF e]
  note t3 = last [OF empty_target_never_probed [of ?g "[]" "''  ''"], rule_format, OF e]
  have v1: "get_target ?g [Line '' example.com '']
       = (Inr ''http://example.com'', [''http://example.com''])"
    by code_simp
  have v2: "interactive_mode [Line ''nemo'', Line ''quit''] = ([''nemo''], Goodbye)"
    by code_simp
  have w1: "get_target ?g [Line ''  '', Line '' example.com '']
       = (Inr ''http://example.com'', [''http://example.com''])"
    by (rule trans [OF conjunct1 [OF t1] v1])
  have w2: "interactive_mode [Line ''  '', Line ''nemo'', Line ''quit''] = ([''nemo''], Goodbye)"
    by (rule trans [OF conjunct1 [OF conjunct2 [OF t2]] v2])
  have w3: "info_main [Line ''  '', Line ''10''] = Monitoring ''google.com''"
    by (rule spec [OF conjunct2 [OF conjunct2 [OF t3]]])
  show ?thesis
    by (rule conjI [OF e conjI [OF w1 conjI [OF w2 w3]]])
qed

text \<open>
  Against C7 as stated: info.py does not reject the empty hostname but monitors
  \<open>google.com\<close>; \<open>get_target\<close> sends a GET to a target that is no valid URL (no host)
  and returns it when the user answers \<open>y\<close>; and the interactive mode of findingnemo.py
  goes on after an empty line and ends on the command \<open>q\<close>, which is neither an empty
  target nor a cancellation.
\<close>

theorem empty_target_not_rejected_counterexample:
  "info_main [Line [], Line []] = Monitoring ''google.com''
   \<and> get_target (\<lambda>u. Inr (RequestException Malformed_target ''Invalid URL''))
        [Line ''http://'', Line ''y''] = (Inr ''http://'', [''http://''])
   \<and> interactive_mode [Line [], Line ''q''] = ([], Goodbye)"
proof -
  have a: "info_main [Line [], Line []] = Monitoring ''google.com''"
    by code_simp
  have b: "get_target (\<lambda>u. Inr (RequestException Malformed_target ''Invalid URL''))
        [Line ''http://'', Line ''y''] = (Inr ''http://'', [''http://''])"
    by code_simp
  have c: "interactive_mode [Line [], Line ''q''] = ([], Goodbye)"
    by code_simp
  show ?thesis
    by (rule conjI [OF a conjI [OF b c]])
qed

section \<open>The geolocation cache of info.py\<close>

lemma get_geolocation_cached:
  "geo_cache self ip = Some d \<Longrightarrow> get_geolocation g ip self = (Some d, self)"
  by (simp add: get_geolocation_def)

lemma get_geolocation_Some:
  "get_geolocation g ip self = (Some d, self1) \<Longrightarrow> geo_cache self1 ip = Some d"
  by (auto simp: get_geolocation_def Let_def split: option.splits geo_reply.splits if_splits)

lemma get_geolocation_outbound:
  "outbound (snd (get_geolocation g ip self)) =
     (case geo_cache self ip of None \<Rightarrow> outbound self @ [ip] | Some d \<Rightarrow> outbound self)"
  by (auto simp: get_geolocation_def Let_def split: option.splits geo_reply.splits)

text \<open>A worker that runs its three steps with no other worker in between is the function.\<close>

lemma get_geolocation_steps:
  "run_schedule g [0, 0, 0] [Calling ip] self =
     ([Returned (fst (get_geolocation g ip self))], snd (get_geolocation g ip self))"
  by (auto simp: get_geolocation_def Let_def split: option.splits geo_reply.splits if_splits)

text \<open>
  C8, as the code has it: for lookups of one address that run one after the other, a
  lookup sends exactly one outbound call when the address is not in the cache and none
  when it is, so never more than one; and once a lookup has returned a value, every
  later lookup of that address returns the same value from the cache and sends no
  outbound call, whatever the service would answer then. A worker whose three steps run
  with no other worker in between behaves as the function. (The code has no lock: workers
  that test the cache before any of them has stored each send their own call.)
\<close>

theorem get_geolocation_cached_after_success:
  "outbound (snd (get_geolocation g ip self)) =
     (case geo_cache self ip of None \<Rightarrow> outbound self @ [ip] | Some d \<Rightarrow> outbound self)
   \<and> length (outbound (snd (get_geolocation g ip self))) \<le> length (outbound self) + 1
   \<and> (\<forall>d self1. get_geolocation g ip self = (Some d, self1) \<longrightarrow>
         get_geolocation g' ip self1 = (Some d, self1)
         \<and> run_schedule g' [0, 0, 0] [Calling ip] self1 = ([Returned (Some d)], self1))
   \<and> run_schedule g [0, 0, 0] [Calling ip] self =
       ([Returned (fst (get_geolocation g ip self))], snd (get_geolocation g ip self))"
proof -
  have exact: "outbound (snd (get_geolocation g ip self)) =
     (case geo_cache self ip of None \<Rightarrow> outbound self @ [ip] | Some d \<Rightarrow> outbound self)"
    by (rule get_geolocation_outbound)
  have once: "length (outbound (snd (get_geolocation g ip self))) \<le> length (outbound self) + 1"
    by (simp add: get_geolocation_outbound split: option.splits)
  have later: "\<forall>d self1. get_geolocation g ip self = (Some d, self1) \<longrightarrow>
         get_geolocation g' ip self1 = (Some d, self1)
         \<and> run_schedule g' [0, 0, 0] [Calling ip] self1 = ([Returned (Some d)], self1)"
  proof (intro allI impI)
    fix d self1
    assume first: "get_geolocation g ip self = (Some d, self1)"
    have c: "geo_cache self1 ip = Some d"
      using first by (rule get_geolocation_Some)
    then have again: "get_geolocation g' ip self1 = (Some d, self1)"
      by (rule get_geolocation_cached)
    have steps: "run_schedule g' [0, 0, 0] [Calling ip] self1 = ([Returned (Some d)], self1)"
      by (simp only: get_geolocation_steps again fst_conv snd_conv)
    from again steps
    show "get_geolocation g' ip self1 = (Some d, self1)
         \<and> run_schedule g' [0, 0, 0] [Calling ip] self1 = ([Returned (Some d)], self1)"
      by (rule conjI)
  qed
  note seq = get_geolocation_steps [of g ip self]
  show ?thesis
    by (rule conjI [OF exact conjI [OF once conjI [OF later seq]]])
qed

theorem get_geolocation_cached_after_success_witness:
  "get_geolocation (\<lambda>ip. Geo_response 200 (Some ''DE'')) ''192.0.2.7''
      \<lparr>geo_cache = Map.empty, outbound = []\<rparr>
     = (Some ''DE'', \<lparr>geo_cache = [''192.0.2.7'' \<mapsto> ''DE''], outbound = [''192.0.2.7'']\<rparr>)
   \<and> get_geolocation (\<lambda>ip. Geo_exception) ''192.0.2.7''
      \<lparr>geo_cache = [''192.0.2.7'' \<mapsto> ''DE''], outbound = [''192.0.2.7'']\<rparr>
     = (Some ''DE'', \<lparr>geo_cache = [''192.0.2.7'' \<mapsto> ''DE''], outbound = [''192.0.2.7'']\<rparr>)"
proof -
  have h: "get_geolocation (\<lambda>ip. Geo_response 200 (Some ''DE'')) ''192.0.2.7''
      \<lparr>geo_cache = Map.empty, outbound = []\<rparr>
     = (Some ''DE'', \<lparr>geo_cache = [''192.0.2.7'' \<mapsto> ''DE''], outbound = [''192.0.2.7'']\<rparr>)"
    by (simp add: get_geolocation_def)
  note t = get_geolocation_cached_after_success
    [of "\<lambda>ip. Geo_response 200 (Some ''DE'')" "''192.0.2.7''"
        "\<lparr>geo_cache = Map.empty, outbound = []\<rparr>" "\<lambda>ip. Geo_exception"]
  note later = conjunct1 [OF conjunct2 [OF conjunct2 [OF t]], rule_format, OF h]
  show ?thesis
    by (rule conjI [OF h conjunct1 [OF later]])
qed

text \<open>
  Against C8 as stated: two workers look the same address up, each tests the cache
  before the other has stored, and two outbound calls are sent.
\<close>

theorem concurrent_miss_counterexample:
  "fst (run_schedule (\<lambda>ip. Geo_response 200 (Some ''DE'')) [0, 1, 0, 1, 0, 1]
          [Calling ''192.0.2.7'', Calling ''192.0.2.7'']
          \<lparr>geo_cache = Map.empty, outbound = []\<rparr>)
     = [Returned (Some ''DE''), Returned (Some ''DE'')]
   \<and> outbound (snd (run_schedule (\<lambda>ip. Geo_response 200 (Some ''DE'')) [0, 1, 0, 1, 0, 1]
          [Calling ''192.0.2.7'', Calling ''192.0.2.7'']
          \<lparr>geo_cache = Map.empty, outbound = []\<rparr>))
     = [''192.0.2.7'', ''192.0.2.7'']"
  by simp


end
